theory Spec2Isabelle
  imports Main "HOL-Library.Sublist" "HOL-Library.AList"
begin

section \<open>JSON-like values\<close>

text \<open>
  The values \<^verbatim>\<open>json.load\<close> and \<^verbatim>\<open>response.json()\<close> produce: scalars, sequences and
  mappings. A Python \<^verbatim>\<open>dict\<close> keeps insertion order, which the loops of the program
  observe, so a mapping is an association list in iteration order.
\<close>

datatype json =
    JNull
  | JBool bool
  | JNum int
  | JStr string
  | JList "json list"
  | JDict "(string \<times> json) list"

fun is_container :: "json \<Rightarrow> bool" where
  "is_container (JList xs) = True"
| "is_container (JDict kvs) = True"
| "is_container v = False"

fun is_str :: "json \<Rightarrow> bool" where
  "is_str (JStr s) = True"
| "is_str v = False"

text \<open>The text of a string value; only ever applied under the guard \<open>is_str\<close>.\<close>

fun str_of :: "json \<Rightarrow> string" where
  "str_of (JStr s) = s"
| "str_of v = []"

section \<open>Setup extraction\<close>

text \<open>
  \<^verbatim>\<open>extract_setup_values(self, data, setup_values=None)\<close>. The accumulator is the list
  that the recursive calls append to; \<open>extract_dict_loop\<close> is the \<^verbatim>\<open>for key, value in
  data.items()\<close> loop and \<open>extract_list_loop\<close> the \<^verbatim>\<open>for item in data\<close> loop.
\<close>

fun extract_walk :: "json \<Rightarrow> string list \<Rightarrow> string list"
  and extract_dict_loop :: "(string \<times> json) list \<Rightarrow> string list \<Rightarrow> string list"
  and extract_list_loop :: "json list \<Rightarrow> string list \<Rightarrow> string list"
where
  "extract_walk (JDict kvs) acc = extract_dict_loop kvs acc"
| "extract_walk (JList xs) acc = extract_list_loop xs acc"
| "extract_walk JNull acc = acc"
| "extract_walk (JBool b) acc = acc"
| "extract_walk (JNum n) acc = acc"
| "extract_walk (JStr s) acc = acc"
| "extract_dict_loop [] acc = acc"
| "extract_dict_loop ((key, v) # kvs) acc =
     (if key = ''setup'' \<and> is_str v then extract_dict_loop kvs (acc @ [str_of v])
      else if is_container v then extract_dict_loop kvs (extract_walk v acc)
      else extract_dict_loop kvs acc)"
| "extract_list_loop [] acc = acc"
| "extract_list_loop (item # items) acc = extract_list_loop items (extract_walk item acc)"

text \<open>The entry point: an absent accumulator argument starts a fresh empty list.\<close>

definition extract_setup_values :: "json \<Rightarrow> string list option \<Rightarrow> string list" where
  "extract_setup_values data setup_values =
     extract_walk data (case setup_values of None \<Rightarrow> [] | Some acc \<Rightarrow> acc)"

text \<open>
  The specification's reading: every key/value member of the tree, listed in depth-first,
  first-encountered order (a member before the members nested inside its value), and of
  those the string values whose key is \<^verbatim>\<open>setup\<close>.
\<close>

fun members :: "json \<Rightarrow> (string \<times> json) list"
  and members_dict :: "(string \<times> json) list \<Rightarrow> (string \<times> json) list"
  and members_list :: "json list \<Rightarrow> (string \<times> json) list"
where
  "members (JDict kvs) = members_dict kvs"
| "members (JList xs) = members_list xs"
| "members JNull = []"
| "members (JBool b) = []"
| "members (JNum n) = []"
| "members (JStr s) = []"
| "members_dict [] = []"
| "members_dict ((key, v) # kvs) = (key, v) # members v @ members_dict kvs"
| "members_list [] = []"
| "members_list (item # items) = members item @ members_list items"

definition setup_strings_of :: "(string \<times> json) list \<Rightarrow> string list" where
  "setup_strings_of ms = [s. (key, JStr s) \<leftarrow> ms, key = ''setup'']"

definition setup_strings :: "json \<Rightarrow> string list" where
  "setup_strings data = setup_strings_of (members data)"

section \<open>Python string operations\<close>

text \<open>
  \<^verbatim>\<open>a in b\<close> on two strings: \<open>a\<close> occurs in \<open>b\<close> as a contiguous substring.
\<close>

fun py_in_str :: "string \<Rightarrow> string \<Rightarrow> bool" where
  "py_in_str a [] = (a = [])"
| "py_in_str a (c # cs) = (prefix a (c # cs) \<or> py_in_str a cs)"

text \<open>
  \<^verbatim>\<open>s.replace(old, new)\<close>: every non-overlapping occurrence of \<open>old\<close>, found from the
  left, is replaced. \<open>replace_scan\<close> is the scan for a non-empty \<open>old\<close>; with an empty
  \<open>old\<close> Python puts \<open>new\<close> before every character and at the end.
\<close>

fun replace_scan :: "string \<Rightarrow> string \<Rightarrow> string \<Rightarrow> string" where
  "replace_scan old new [] = []"
| "replace_scan old new (c # cs) =
     (if prefix old (c # cs) then new @ replace_scan old new (drop (length old - 1) cs)
      else c # replace_scan old new cs)"

definition py_replace :: "string \<Rightarrow> string \<Rightarrow> string \<Rightarrow> string" where
  "py_replace s old new =
     (if old = [] then new @ concat (map (\<lambda>c. c # new) s) else replace_scan old new s)"

text \<open>
  \<^verbatim>\<open>str.strip()\<close>. A character of the model stands for a code point below 256; among
  those, the whitespace that Python strips is 9 to 13, 28 to 32, 133 (next line) and 160
  (no-break space).
\<close>

definition is_space :: "char \<Rightarrow> bool" where
  "is_space c =
     (let n = (of_char c :: nat)
      in (9 \<le> n \<and> n \<le> 13) \<or> (28 \<le> n \<and> n \<le> 32) \<or> n = 133 \<or> n = 160)"

definition py_strip :: "string \<Rightarrow> string" where
  "py_strip s = rev (dropWhile is_space (rev (dropWhile is_space s)))"

text \<open>
  \<^verbatim>\<open>str.upper\<close>, \<^verbatim>\<open>str.lower\<close> and \<^verbatim>\<open>str.strip\<close> are library functions; their Unicode
  tables are not part of the repository. The editor below takes the three functions as a
  parameter, so that what is proved about it holds for Python's own functions.
\<close>

record str_ops =
  str_upper :: "string \<Rightarrow> string"
  str_lower :: "string \<Rightarrow> string"
  str_strip :: "string \<Rightarrow> string"

text \<open>
  The three functions on ASCII text, where \<^verbatim>\<open>upper\<close> and \<^verbatim>\<open>lower\<close> change the letters
  a-z and A-Z and keep every other character. They are used to run the editor on ASCII
  example inputs only, where they agree with Python.
\<close>

definition upper_char :: "char \<Rightarrow> char" where
  "upper_char c =
     (let n = (of_char c :: nat) in if 97 \<le> n \<and> n \<le> 122 then char_of (n - 32) else c)"

definition lower_char :: "char \<Rightarrow> char" where
  "lower_char c =
     (let n = (of_char c :: nat) in if 65 \<le> n \<and> n \<le> 90 then char_of (n + 32) else c)"

definition ascii_upper :: "string \<Rightarrow> string" where
  "ascii_upper s = map upper_char s"

definition ascii_lower :: "string \<Rightarrow> string" where
  "ascii_lower s = map lower_char s"

definition ascii_ops :: str_ops where
  "ascii_ops = \<lparr>str_upper = ascii_upper, str_lower = ascii_lower, str_strip = py_strip\<rparr>"

text \<open>Truthiness of an optional string: \<^verbatim>\<open>None\<close> and the empty string are false.\<close>

fun truthy :: "string option \<Rightarrow> bool" where
  "truthy None = False"
| "truthy (Some s) = (s \<noteq> [])"

section \<open>Cluster registry\<close>

text \<open>
  An entry of \<^verbatim>\<open>cluster_regions.json\<close>; each field is read with \<^verbatim>\<open>.get\<close>, so an absent
  field is \<open>None\<close>. A partition is the dict of one provider in iteration order; a partition
  missing from the file reads as the empty dict.
\<close>

record cluster_info =
  region :: "string option"
  location :: "string option"
  country :: "string option"

type_synonym clusters = "(string \<times> cluster_info) list"

record cluster_registry =
  aws_eks_clusters :: clusters
  gcp_gke_clusters :: clusters

text \<open>
  The manager object, as far as resolution reads and writes it: the registry, and the four
  diagnostic attributes that the resolver stores on the instance. An attribute that was
  never assigned (\<^verbatim>\<open>hasattr\<close> false) is \<open>None\<close>.
\<close>

record manager =
  cluster_regions :: cluster_registry
  found_setups :: "string list option"
  not_found_setups :: "string list option"
  found_locations :: "string list option"
  missing_country_clusters :: "string list option"

section \<open>Region resolution\<close>

text \<open>
  \<^verbatim>\<open>get_regions_for_setups\<close>. The loop state is the region list of the provider and
  \<^verbatim>\<open>found_setups\<close>.
\<close>

fun aws_loop :: "clusters \<Rightarrow> string list \<Rightarrow> string list \<times> string list \<Rightarrow> string list \<times> string list" where
  "aws_loop [] setup_values (regs, found) = (regs, found)"
| "aws_loop ((cluster_name, info) # cs) setup_values (regs, found) =
     (if cluster_name \<in> set setup_values then
        (if truthy (region info)
         then aws_loop cs setup_values (regs @ [the (region info)], found @ [cluster_name])
         else aws_loop cs setup_values (regs, found))
      else aws_loop cs setup_values (regs, found))"

definition mapped_label :: "string \<Rightarrow> string \<Rightarrow> string" where
  "mapped_label base_name cluster_name = base_name @ '' (mapped to '' @ cluster_name @ '')''"

fun gcp_loop :: "clusters \<Rightarrow> string list \<Rightarrow> string list \<times> string list \<Rightarrow> string list \<times> string list" where
  "gcp_loop [] setup_values (regs, found) = (regs, found)"
| "gcp_loop ((cluster_name, info) # cs) setup_values (regs, found) =
     (if cluster_name \<in> set setup_values then
        (if truthy (region info)
         then gcp_loop cs setup_values (regs @ [the (region info)], found @ [cluster_name])
         else gcp_loop cs setup_values (regs, found))
      else
        (let base_name = py_replace cluster_name ''-gke'' [] in
         if base_name \<in> set setup_values then
           (if truthy (region info)
            then gcp_loop cs setup_values
                   (regs @ [the (region info)], found @ [mapped_label base_name cluster_name])
            else gcp_loop cs setup_values (regs, found))
         else gcp_loop cs setup_values (regs, found)))"

definition not_found_of :: "string list \<Rightarrow> string list \<Rightarrow> string list" where
  "not_found_of setup_values found =
     filter (\<lambda>setup. setup \<notin> set found \<and> \<not> list_ex (\<lambda>f. py_in_str setup f) found) setup_values"

type_synonym regions = "(string \<times> string list) list"

definition get_regions_for_setups :: "manager \<Rightarrow> string list \<Rightarrow> regions \<times> manager" where
  "get_regions_for_setups self setup_values =
     (let (aws, found1) = aws_loop (aws_eks_clusters (cluster_regions self)) setup_values ([], []);
          (gcp, found2) = gcp_loop (gcp_gke_clusters (cluster_regions self)) setup_values ([], found1);
          not_found = not_found_of setup_values found2
      in ([(''aws'', aws), (''gcp'', gcp)],
          self\<lparr>found_setups := Some found2, not_found_setups := Some not_found\<rparr>))"

section \<open>Country resolution\<close>

text \<open>
  \<^verbatim>\<open>get_countries_for_regions\<close>. The loop state is \<^verbatim>\<open>countries\<close>, \<^verbatim>\<open>found_locations\<close> and
  \<^verbatim>\<open>missing_country_clusters\<close>.
\<close>

type_synonym country_state = "string list \<times> string list \<times> string list"

fun cluster_loop :: "clusters \<Rightarrow> string \<Rightarrow> country_state \<Rightarrow> country_state" where
  "cluster_loop [] r st = st"
| "cluster_loop ((cluster_name, info) # cs) r (countries, locs, missing) =
     (if region info = Some r then
        (if truthy (location info) \<and> truthy (country info) then
           cluster_loop cs r
             (if the (country info) \<notin> set countries then countries @ [the (country info)]
              else countries,
              locs @ [r @ '' ('' @ the (location info) @ '')''],
              missing)
         else if truthy (location info) \<and> \<not> truthy (country info) then
           cluster_loop cs r
             (countries, locs, missing @ [cluster_name @ '' ('' @ the (location info) @ '')''])
         else if \<not> truthy (location info) then
           cluster_loop cs r (countries, locs, missing @ [cluster_name @ '' (no location)''])
         else cluster_loop cs r (countries, locs, missing))
      else cluster_loop cs r (countries, locs, missing))"

definition clusters_of :: "cluster_registry \<Rightarrow> string \<Rightarrow> clusters" where
  "clusters_of reg cloud_type =
     (if cloud_type = ''aws'' then aws_eks_clusters reg else gcp_gke_clusters reg)"

fun region_loop :: "cluster_registry \<Rightarrow> string \<Rightarrow> string list \<Rightarrow> country_state \<Rightarrow> country_state" where
  "region_loop reg cloud_type [] st = st"
| "region_loop reg cloud_type (r # rs) st =
     region_loop reg cloud_type rs (cluster_loop (clusters_of reg cloud_type) r st)"

fun cloud_loop :: "cluster_registry \<Rightarrow> regions \<Rightarrow> country_state \<Rightarrow> country_state" where
  "cloud_loop reg [] st = st"
| "cloud_loop reg ((cloud_type, region_list) # rest) st =
     cloud_loop reg rest (region_loop reg cloud_type region_list st)"

definition get_countries_for_regions :: "manager \<Rightarrow> regions \<Rightarrow> string list \<times> manager" where
  "get_countries_for_regions self regs =
     (let (countries, locs, missing) = cloud_loop (cluster_regions self) regs ([], [], [])
      in (countries,
          self\<lparr>found_locations := Some locs, missing_country_clusters := Some missing\<rparr>))"

text \<open>
  The resolution steps of \<^verbatim>\<open>check_channel_whitelist_status\<close> in sequence: extraction,
  region resolution, country resolution, each on the object the previous step left.
\<close>

definition resolve_setups :: "manager \<Rightarrow> json \<Rightarrow> (string list \<times> regions \<times> string list) \<times> manager" where
  "resolve_setups self delivery_details =
     (let setup_values = extract_setup_values delivery_details None;
          (regs, self1) = get_regions_for_setups self setup_values;
          (countries, self2) = get_countries_for_regions self1 regs
      in ((setup_values, regs, countries), self2))"

section \<open>Reconciliation\<close>

text \<open>
  The comparison at the end of \<^verbatim>\<open>check_channel_whitelist_status\<close>. The restriction dict is
  read with \<^verbatim>\<open>.get('RestrictionType', 'none')\<close> and \<^verbatim>\<open>.get('Items', [])\<close>. The result
  holds the two lists the code computes and reports; a list that a branch does not compute
  is empty.
\<close>

record geo_restriction =
  RestrictionType :: "string option"
  Items :: "string list option"

record reconciliation =
  missing_countries :: "string list"
  blocked_countries :: "string list"

definition check_whitelist :: "string list \<Rightarrow> geo_restriction \<Rightarrow> reconciliation" where
  "check_whitelist countries dist_restrictions =
     (let restriction_type =
            (case RestrictionType dist_restrictions of None \<Rightarrow> ''none'' | Some t \<Rightarrow> t);
          allowed_countries = (case Items dist_restrictions of None \<Rightarrow> [] | Some xs \<Rightarrow> xs)
      in if restriction_type = ''whitelist'' then
           \<lparr>missing_countries = filter (\<lambda>c. c \<notin> set allowed_countries) countries,
            blocked_countries = []\<rparr>
         else if restriction_type = ''blacklist'' then
           \<lparr>missing_countries = [],
            blocked_countries = filter (\<lambda>c. c \<in> set allowed_countries) countries\<rparr>
         else \<lparr>missing_countries = [], blocked_countries = []\<rparr>)"

section \<open>Interactive editor\<close>

text \<open>
  The country table is the dict code \<open>\<mapsto>\<close> display name in iteration order.
  \<^verbatim>\<open>_load_country_codes_reverse\<close> builds \<^verbatim>\<open>{v.lower(): k for k, v in ...items()}\<close>: a later
  entry with the same lower-cased name replaces an earlier one.
\<close>

type_synonym country_table = "(string \<times> string) list"

definition load_country_codes_reverse :: "str_ops \<Rightarrow> country_table \<Rightarrow> (string \<rightharpoonup> string)" where
  "load_country_codes_reverse ops country_codes =
     fold (\<lambda>(k, v) m. m(str_lower ops v \<mapsto> k)) country_codes Map.empty"

text \<open>\<^verbatim>\<open>country_codes.get(code, code)\<close>.\<close>

definition name_of :: "country_table \<Rightarrow> string \<Rightarrow> string" where
  "name_of country_codes code = (case map_of country_codes code of None \<Rightarrow> code | Some n \<Rightarrow> n)"

text \<open>\<^verbatim>\<open>input(...).strip().lower() in ['yes', 'y']\<close>.\<close>

definition confirmed :: "str_ops \<Rightarrow> string \<Rightarrow> bool" where
  "confirmed ops line = (str_lower ops (str_strip ops line) \<in> {''yes'', ''y''})"

datatype add_outcome =
  AddNoCountryEntered | AddNotFound | AddAlreadyInList | Added | AdditionCancelled

text \<open>
  \<^verbatim>\<open>_add_country_to_list\<close>. The two \<^verbatim>\<open>input()\<close> lines are arguments; the result is the
  message branch taken and the list \<^verbatim>\<open>current_items\<close> as the call leaves it.
\<close>

definition find_country_code ::
  "str_ops \<Rightarrow> country_table \<Rightarrow> (string \<rightharpoonup> string) \<Rightarrow> string \<Rightarrow> string option" where
  "find_country_code ops country_codes reverse_codes country_input =
     (if country_input \<in> fst ` set country_codes then Some country_input
      else if str_lower ops country_input \<in> dom reverse_codes
        then reverse_codes (str_lower ops country_input)
      else None)"

definition add_country_to_list ::
  "str_ops \<Rightarrow> string list \<Rightarrow> country_table \<Rightarrow> (string \<rightharpoonup> string) \<Rightarrow> string \<Rightarrow> string \<Rightarrow>
     add_outcome \<times> string list" where
  "add_country_to_list ops current_items country_codes reverse_codes line confirm_line =
     (let country_input = str_upper ops (str_strip ops line) in
      if country_input = [] then (AddNoCountryEntered, current_items)
      else
        (case find_country_code ops country_codes reverse_codes country_input of
           None \<Rightarrow> (AddNotFound, current_items)
         | Some country_code \<Rightarrow>
             if country_code \<in> set current_items then (AddAlreadyInList, current_items)
             else if confirmed ops confirm_line then (Added, current_items @ [country_code])
             else (AdditionCancelled, current_items)))"

datatype remove_outcome =
  RemoveEmptyList | RemoveNoCountryEntered | RemoveNotFound | Removed | RemovalCancelled

text \<open>
  \<^verbatim>\<open>_remove_country_from_list\<close>. \<open>find_by_name\<close> is the \<^verbatim>\<open>for code in current_items\<close>
  loop, which stops at the first display name containing the input.
\<close>

fun find_by_name :: "str_ops \<Rightarrow> country_table \<Rightarrow> string \<Rightarrow> string list \<Rightarrow> string option" where
  "find_by_name ops country_codes choice [] = None"
| "find_by_name ops country_codes choice (code # rest) =
     (if py_in_str (str_lower ops choice) (str_lower ops (name_of country_codes code))
      then Some code
      else find_by_name ops country_codes choice rest)"

definition remove_country_from_list ::
  "str_ops \<Rightarrow> string list \<Rightarrow> country_table \<Rightarrow> string \<Rightarrow> string \<Rightarrow> remove_outcome \<times> string list" where
  "remove_country_from_list ops current_items country_codes line confirm_line =
     (if current_items = [] then (RemoveEmptyList, current_items)
      else
        (let choice = str_strip ops line in
         if choice = [] then (RemoveNoCountryEntered, current_items)
         else
           (let country_to_remove =
                  (if str_upper ops choice \<in> set current_items then Some (str_upper ops choice)
                   else find_by_name ops country_codes choice current_items)
            in if truthy country_to_remove then
                 (if confirmed ops confirm_line
                  then (Removed, remove1 (the country_to_remove) current_items)
                  else (RemovalCancelled, current_items))
               else (RemoveNotFound, current_items))))"

section \<open>Distribution API\<close>

text \<open>
  A CloudFront client, as far as the program uses it. A call returns or raises; a
  \<^verbatim>\<open>ClientError\<close> carries the optional \<^verbatim>\<open>Code\<close> of its error response. Every call made
  is recorded, in order, in a log that the functions below return with their result.
\<close>

datatype api_error = ClientError "string option" | OtherException

datatype 'a api_result = Returned 'a | Raised api_error

type_synonym config = "(string \<times> json) list"

record distribution =
  dist_Id :: string
  DistributionConfig :: config

record get_response =
  ETag :: "string option"
  Distribution :: "distribution option"

record client =
  get_distribution :: "string \<Rightarrow> get_response api_result"
  update_distribution :: "string \<Rightarrow> config \<Rightarrow> string \<Rightarrow> unit api_result"

datatype api_call =
    GetDistribution string string
  | UpdateDistribution string string config string

record distribution_info =
  account :: string
  distribution :: distribution

definition error_code_of :: "string option \<Rightarrow> string" where
  "error_code_of code = (case code of None \<Rightarrow> ''Unknown'' | Some c \<Rightarrow> c)"

definition logged :: "api_call \<Rightarrow> 'a \<times> api_call list \<Rightarrow> 'a \<times> api_call list" where
  "logged call res = (fst res, call # snd res)"

text \<open>
  \<^verbatim>\<open>get_distribution_info\<close>: \<open>scan_accounts\<close> is the loop over \<^verbatim>\<open>self.clients.items()\<close>;
  \<^verbatim>\<open>continue\<close> is the recursive call on the remaining accounts.
\<close>

fun scan_accounts :: "(string \<times> client) list \<Rightarrow> string \<Rightarrow> distribution_info option \<times> api_call list" where
  "scan_accounts [] distribution_id = (None, [])"
| "scan_accounts ((account_name, c) # rest) distribution_id =
     (case get_distribution c distribution_id of
        Returned response \<Rightarrow>
          (case Distribution response of
             None \<Rightarrow>
               logged (GetDistribution account_name distribution_id)
                 (scan_accounts rest distribution_id)
           | Some d \<Rightarrow>
               (Some \<lparr>account = account_name, distribution = d\<rparr>,
                [GetDistribution account_name distribution_id]))
      | Raised (ClientError code) \<Rightarrow>
          (if error_code_of code = ''NoSuchDistribution'' then
             logged (GetDistribution account_name distribution_id)
               (scan_accounts rest distribution_id)
           else if error_code_of code = ''AccessDenied'' then
             logged (GetDistribution account_name distribution_id)
               (scan_accounts rest distribution_id)
           else if error_code_of code = ''InvalidArgument'' then
             (None, [GetDistribution account_name distribution_id])
           else
             logged (GetDistribution account_name distribution_id)
               (scan_accounts rest distribution_id))
      | Raised OtherException \<Rightarrow>
          logged (GetDistribution account_name distribution_id)
            (scan_accounts rest distribution_id))"

definition get_distribution_info ::
  "(string \<times> client) list \<Rightarrow> string \<Rightarrow> distribution_info option \<times> api_call list" where
  "get_distribution_info clients distribution_id =
     (if distribution_id = [] \<or> py_strip distribution_id = [] then (None, [])
      else scan_accounts clients distribution_id)"

section \<open>Applying edits\<close>

text \<open>
  \<^verbatim>\<open>_apply_changes_to_cloudfront\<close>. \<open>update_geo_config\<close> is the edit of the copied config
  dict; an operation that Python refuses on the value found under \<^verbatim>\<open>Restrictions\<close> raises,
  and the enclosing \<^verbatim>\<open>except\<close> turns every exception into the result \<^verbatim>\<open>False\<close>.
\<close>

datatype py_exn = TypeError

fun py_not :: "json \<Rightarrow> bool" where
  "py_not JNull = True"
| "py_not (JBool b) = (\<not> b)"
| "py_not (JNum n) = (n = 0)"
| "py_not (JStr s) = (s = [])"
| "py_not (JList xs) = (xs = [])"
| "py_not (JDict d) = (d = [])"

text \<open>
  \<^verbatim>\<open>if 'GeoRestriction' in r: del r['GeoRestriction']\<close> for the value \<open>r\<close> under
  \<^verbatim>\<open>Restrictions\<close>.
\<close>

fun remove_geo :: "json \<Rightarrow> py_exn + json" where
  "remove_geo (JDict d) =
     (if ''GeoRestriction'' \<in> fst ` set d then Inr (JDict (AList.delete ''GeoRestriction'' d))
      else Inr (JDict d))"
| "remove_geo (JList xs) =
     (if JStr ''GeoRestriction'' \<in> set xs then Inl TypeError else Inr (JList xs))"
| "remove_geo (JStr s) =
     (if py_in_str ''GeoRestriction'' s then Inl TypeError else Inr (JStr s))"
| "remove_geo v = Inl TypeError"

text \<open>\<^verbatim>\<open>r['GeoRestriction'] = geo\<close> for the value \<open>r\<close> under \<^verbatim>\<open>Restrictions\<close>.\<close>

fun set_geo :: "json \<Rightarrow> json \<Rightarrow> py_exn + json" where
  "set_geo geo (JDict d) = Inr (JDict (AList.update ''GeoRestriction'' geo d))"
| "set_geo geo v = Inl TypeError"

definition geo_value :: "string \<Rightarrow> string list \<Rightarrow> json" where
  "geo_value restriction_type items =
     JDict [(''RestrictionType'', JStr restriction_type),
            (''Quantity'', JNum (int (length items))),
            (''Items'', JList (map JStr items))]"

definition update_geo_config :: "string \<Rightarrow> string list \<Rightarrow> config \<Rightarrow> py_exn + config" where
  "update_geo_config restriction_type items config =
     (if restriction_type = ''none'' then
        (case map_of config ''Restrictions'' of
           None \<Rightarrow> Inr config
         | Some r \<Rightarrow>
             (case remove_geo r of
                Inl e \<Rightarrow> Inl e
              | Inr r' \<Rightarrow>
                  if py_not r' then Inr (AList.delete ''Restrictions'' config)
                  else Inr (AList.update ''Restrictions'' r' config)))
      else
        (let config1 =
               (if ''Restrictions'' \<notin> fst ` set config
                then AList.update ''Restrictions'' (JDict []) config else config)
         in case map_of config1 ''Restrictions'' of
              None \<Rightarrow> Inl TypeError
            | Some r \<Rightarrow>
                (case set_geo (geo_value restriction_type items) r of
                   Inl e \<Rightarrow> Inl e
                 | Inr r' \<Rightarrow> Inr (AList.update ''Restrictions'' r' config1))))"

definition apply_changes_to_cloudfront ::
  "(string \<times> client) list \<Rightarrow> distribution_info \<Rightarrow> string \<Rightarrow> string list \<Rightarrow> bool \<times> api_call list" where
  "apply_changes_to_cloudfront clients distribution_info restriction_type items =
     (let account_name = account distribution_info in
      case map_of clients account_name of
        None \<Rightarrow> (False, [])
      | Some c \<Rightarrow>
          (case update_geo_config restriction_type items
                  (DistributionConfig (distribution distribution_info)) of
             Inl e \<Rightarrow> (False, [])
           | Inr config \<Rightarrow>
               (let distribution_id = dist_Id (distribution distribution_info) in
                case get_distribution c distribution_id of
                  Raised e \<Rightarrow> (False, [GetDistribution account_name distribution_id])
                | Returned current_dist \<Rightarrow>
                    (case ETag current_dist of
                       None \<Rightarrow> (False, [GetDistribution account_name distribution_id])
                     | Some etag \<Rightarrow>
                         (case update_distribution c distribution_id config etag of
                            Returned u \<Rightarrow>
                              (True,
                               [GetDistribution account_name distribution_id,
                                UpdateDistribution account_name distribution_id config etag])
                          | Raised e \<Rightarrow>
                              (False,
                               [GetDistribution account_name distribution_id,
                                UpdateDistribution account_name distribution_id config etag]))))))"

section \<open>Predicates and example inputs used in the statements\<close>

text \<open>
  An account whose lookup ends in \<^verbatim>\<open>NoSuchDistribution\<close> or \<^verbatim>\<open>AccessDenied\<close>.
\<close>

definition skipped :: "client \<Rightarrow> string \<Rightarrow> bool" where
  "skipped c distribution_id =
     (get_distribution c distribution_id = Raised (ClientError (Some ''NoSuchDistribution'')) \<or>
      get_distribution c distribution_id = Raised (ClientError (Some ''AccessDenied'')))"

text \<open>A client whose every lookup raises a \<^verbatim>\<open>ClientError\<close> with the given code.\<close>

definition failing_client :: "string \<Rightarrow> client" where
  "failing_client code =
     \<lparr>get_distribution = (\<lambda>i. Raised (ClientError (Some code))),
      update_distribution = (\<lambda>i cfg tag. Raised OtherException)\<rparr>"

text \<open>
  A client whose remote record currently holds the given config and concurrency token,
  and which accepts every update.
\<close>

definition serving_client :: "config \<Rightarrow> string \<Rightarrow> client" where
  "serving_client cfg tag =
     \<lparr>get_distribution =
        (\<lambda>i. Returned \<lparr>ETag = Some tag,
                        Distribution = Some \<lparr>dist_Id = i, DistributionConfig = cfg\<rparr>\<rparr>),
      update_distribution = (\<lambda>i cfg tag. Returned ())\<rparr>"

text \<open>
  The end-to-end example: one GKE cluster whose key carries the \<^verbatim>\<open>-gke\<close> suffix, a
  manager that has not resolved anything yet, and delivery metadata naming the cluster
  without the suffix.
\<close>

definition example_registry :: cluster_registry where
  "example_registry =
     \<lparr>aws_eks_clusters = [],
      gcp_gke_clusters =
        [(''ts-us-e1-n2-gke'',
          \<lparr>region = Some ''us-east1'', location = Some ''SC'', country = Some ''US''\<rparr>)]\<rparr>"

definition new_manager :: "cluster_registry \<Rightarrow> manager" where
  "new_manager reg =
     \<lparr>cluster_regions = reg, found_setups = None, not_found_setups = None,
      found_locations = None, missing_country_clusters = None\<rparr>"

definition example_metadata :: json where
  "example_metadata = JDict [(''deploy'', JDict [(''setup'', JStr ''ts-us-e1-n2'')])]"

text \<open>
  A session: the config fetched when the session started, and the config the remote record
  holds when the edits are applied, after somebody else changed its comment.
\<close>

definition session_config :: config where
  "session_config =
     [(''Comment'', JStr ''at session start''),
      (''Restrictions'',
         JDict [(''GeoRestriction'',
                 JDict [(''RestrictionType'', JStr ''whitelist''),
                        (''Quantity'', JNum 1),
                        (''Items'', JList [JStr ''GB''])])])]"

definition remote_config :: config where
  "remote_config =
     [(''Comment'', JStr ''changed elsewhere''),
      (''Restrictions'',
         JDict [(''GeoRestriction'',
                 JDict [(''RestrictionType'', JStr ''whitelist''),
                        (''Quantity'', JNum 1),
                        (''Items'', JList [JStr ''GB''])])])]"

definition session_info :: distribution_info where
  "session_info =
     \<lparr>account = ''acct'',
      distribution = \<lparr>dist_Id = ''E1'', DistributionConfig = session_config\<rparr>\<rparr>"

text \<open>The field \<open>k\<close> of the dict under \<^verbatim>\<open>Restrictions\<close>, if there is one.\<close>

definition restriction_field :: "config \<Rightarrow> string \<Rightarrow> json option" where
  "restriction_field cfg k =
     (case map_of cfg ''Restrictions'' of Some (JDict r) \<Rightarrow> map_of r k | _ \<Rightarrow> None)"

text \<open>The registry with the partition that serves \<open>cloud_type\<close> replaced.\<close>

definition with_clusters :: "cluster_registry \<Rightarrow> string \<Rightarrow> clusters \<Rightarrow> cluster_registry" where
  "with_clusters reg cloud_type cs =
     (if cloud_type = ''aws'' then reg\<lparr>aws_eks_clusters := cs\<rparr>
      else reg\<lparr>gcp_gke_clusters := cs\<rparr>)"

text \<open>Two loop states with the same countries and the same found locations.\<close>

definition same_countries :: "country_state \<Rightarrow> country_state \<Rightarrow> bool" where
  "same_countries st st' = (fst st = fst st' \<and> fst (snd st) = fst (snd st'))"

text \<open>
  Two GKE clusters in one region: the first has a country, the second has a location but
  no country field.
\<close>

definition complete_entry :: cluster_info where
  "complete_entry = \<lparr>region = Some ''us-east1'', location = Some ''SC'', country = Some ''US''\<rparr>"

definition incomplete_entry :: cluster_info where
  "incomplete_entry = \<lparr>region = Some ''us-east1'', location = Some ''Iowa'', country = None\<rparr>"

definition incomplete_registry :: cluster_registry where
  "incomplete_registry =
     \<lparr>aws_eks_clusters = [],
      gcp_gke_clusters = [(''c1-gke'', complete_entry), (''c2-gke'', incomplete_entry)]\<rparr>"

text \<open>
  One EKS cluster, and setup values of which the first names no cluster but is the
  beginning of the second.
\<close>

definition single_registry :: cluster_registry where
  "single_registry =
     \<lparr>aws_eks_clusters =
        [(''ts-us-e1-n2'',
          \<lparr>region = Some ''us-east-1'', location = Some ''Virginia'', country = Some ''US''\<rparr>)],
      gcp_gke_clusters = []\<rparr>"

text \<open>A small country table, and the test of one listed code against a typed name.\<close>

definition example_countries :: country_table where
  "example_countries = [(''US'', ''United States''), (''GB'', ''United Kingdom''), (''IN'', ''India'')]"

definition name_matches :: "str_ops \<Rightarrow> country_table \<Rightarrow> string \<Rightarrow> string \<Rightarrow> bool" where
  "name_matches ops country_codes choice code =
     py_in_str (str_lower ops choice) (str_lower ops (name_of country_codes code))"

text \<open>
  Two clusters with the same region string, one in each partition: the EKS one has a
  location and no country, the GKE one is complete.
\<close>

definition orphan_entry :: cluster_info where
  "orphan_entry = \<lparr>region = Some ''r1'', location = Some ''Ohio'', country = None\<rparr>"

definition cross_registry :: cluster_registry where
  "cross_registry =
     \<lparr>aws_eks_clusters = [(''a1'', orphan_entry)],
      gcp_gke_clusters =
        [(''g1'', \<lparr>region = Some ''r1'', location = Some ''SC'', country = Some ''US''\<rparr>)]\<rparr>"

text \<open>Two countries whose display names both contain the code of the second.\<close>

definition china_india :: country_table where
  "china_india = [(''CN'', ''China''), (''IN'', ''India'')]"

section \<open>Setup extraction returns the setup strings in document order\<close>

lemma setup_strings_of_append:
  "setup_strings_of (xs @ ys) = setup_strings_of xs @ setup_strings_of ys"
  by (simp add: setup_strings_of_def)

lemma setup_strings_of_Cons:
  "setup_strings_of ((key, v) # ms) =
     (if key = ''setup'' \<and> is_str v then str_of v # setup_strings_of ms
      else setup_strings_of ms)"
  by (cases v) (simp_all add: setup_strings_of_def)

lemma members_scalar: "\<not> is_container v \<Longrightarrow> members v = []"
  by (cases v) simp_all

lemma extract_walk_acc:
  "extract_walk d acc = acc @ setup_strings_of (members d)"
  "extract_dict_loop kvs acc = acc @ setup_strings_of (members_dict kvs)"
  "extract_list_loop xs acc = acc @ setup_strings_of (members_list xs)"
proof (induction d acc and kvs acc and xs acc
    rule: extract_walk_extract_dict_loop_extract_list_loop.induct)
  case (8 key v kvs acc)
  show ?case
  proof (cases "key = ''setup'' \<and> is_str v")
    case True
    then have "members v = []" by (cases v) simp_all
    with True 8 show ?thesis
      by (simp add: setup_strings_of_Cons setup_strings_of_append)
  next
    case False
    show ?thesis
    proof (cases "is_container v")
      case True
      with False 8 show ?thesis
        by (auto simp: setup_strings_of_Cons setup_strings_of_append)
    next
      case nc: False
      with False 8 show ?thesis
        by (auto simp: setup_strings_of_Cons setup_strings_of_append members_scalar)
    qed
  qed
qed (simp_all add: setup_strings_of_def setup_strings_of_append)

text \<open>
  C3. For every JSON-like tree, \<^verbatim>\<open>extract_setup_values\<close> called without an accumulator
  returns exactly the string values stored under a key named \<^verbatim>\<open>setup\<close>, in depth-first
  first-encountered order with duplicates kept. The function is total: no branch of it
  raises. (The depth of Python's call stack is not part of the model.)
\<close>

theorem extract_setup_values_exact:
  "extract_setup_values data None = setup_strings data"
  by (simp add: extract_setup_values_def setup_strings_def extract_walk_acc)

theorem extract_setup_values_exact_witness:
  "extract_setup_values
     (JDict [(''deploy'', JDict [(''setup'', JStr ''a''),
                                 (''x'', JList [JDict [(''setup'', JStr ''b'')], JStr ''setup'']),
                                 (''setup'', JNum 3)]),
             (''setup'', JList [JDict [(''setup'', JStr ''a'')]])]) None
   = [''a'', ''b'', ''a'']"
  using extract_setup_values_exact
    [of "JDict [(''deploy'', JDict [(''setup'', JStr ''a''),
                                 (''x'', JList [JDict [(''setup'', JStr ''b'')], JStr ''setup'']),
                                 (''setup'', JNum 3)]),
             (''setup'', JList [JDict [(''setup'', JStr ''a'')]])]"]
  by (simp add: setup_strings_def setup_strings_of_def)

section \<open>Reconciliation follows the three cases\<close>

text \<open>
  C1. For every required list \<open>R\<close> and restriction record: with a type other than
  whitelist and blacklist (or none at all) both results are empty; with type whitelist the
  missing result is \<open>R\<close> without the record's countries, in the order of \<open>R\<close>, and the
  blocked result is empty; with type blacklist the blocked result is the elements of \<open>R\<close>
  among the record's countries and the missing result is empty.
\<close>

theorem check_whitelist_three_cases:
  "(RestrictionType rec \<noteq> Some ''whitelist'' \<and> RestrictionType rec \<noteq> Some ''blacklist'' \<longrightarrow>
      missing_countries (check_whitelist R rec) = [] \<and>
      blocked_countries (check_whitelist R rec) = [])
   \<and> (RestrictionType rec = Some ''whitelist'' \<longrightarrow>
      missing_countries (check_whitelist R rec) =
        filter (\<lambda>c. c \<notin> set (case Items rec of None \<Rightarrow> [] | Some A \<Rightarrow> A)) R \<and>
      set (missing_countries (check_whitelist R rec)) =
        set R - set (case Items rec of None \<Rightarrow> [] | Some A \<Rightarrow> A) \<and>
      blocked_countries (check_whitelist R rec) = [])
   \<and> (RestrictionType rec = Some ''blacklist'' \<longrightarrow>
      blocked_countries (check_whitelist R rec) =
        filter (\<lambda>c. c \<in> set (case Items rec of None \<Rightarrow> [] | Some B \<Rightarrow> B)) R \<and>
      set (blocked_countries (check_whitelist R rec)) =
        set R \<inter> set (case Items rec of None \<Rightarrow> [] | Some B \<Rightarrow> B) \<and>
      missing_countries (check_whitelist R rec) = [])"
  by (auto simp: check_whitelist_def split: option.splits)

theorem check_whitelist_three_cases_witness:
  "check_whitelist [''US'', ''GB'', ''IN'']
      \<lparr>RestrictionType = Some ''whitelist'', Items = Some [''US'', ''IN'']\<rparr>
     = \<lparr>missing_countries = [''GB''], blocked_countries = []\<rparr>
   \<and> check_whitelist [''US'', ''GB'']
      \<lparr>RestrictionType = Some ''blacklist'', Items = Some [''GB'', ''FR'']\<rparr>
     = \<lparr>missing_countries = [], blocked_countries = [''GB'']\<rparr>
   \<and> check_whitelist [''US'', ''GB'']
      \<lparr>RestrictionType = None, Items = Some [''GB'', ''FR'']\<rparr>
     = \<lparr>missing_countries = [], blocked_countries = []\<rparr>"
  using check_whitelist_three_cases
      [of "\<lparr>RestrictionType = Some ''whitelist'', Items = Some [''US'', ''IN'']\<rparr>"
          "[''US'', ''GB'', ''IN'']"]
    check_whitelist_three_cases
      [of "\<lparr>RestrictionType = Some ''blacklist'', Items = Some [''GB'', ''FR'']\<rparr>"
          "[''US'', ''GB'']"]
    check_whitelist_three_cases
      [of "\<lparr>RestrictionType = None, Items = Some [''GB'', ''FR'']\<rparr>" "[''US'', ''GB'']"]
  by simp

section \<open>Account scan of a distribution lookup\<close>

lemma scan_accounts_skip:
  "list_all (\<lambda>(n, c). skipped c distribution_id) pre \<Longrightarrow>
   scan_accounts (pre @ rest) distribution_id =
     (fst (scan_accounts rest distribution_id),
      map (\<lambda>(n, c). GetDistribution n distribution_id) pre @
        snd (scan_accounts rest distribution_id))"
proof (induction pre)
  case Nil
  then show ?case by simp
next
  case (Cons p pre)
  obtain n c where p: "p = (n, c)" by (cases p)
  from Cons.prems p have sk: "skipped c distribution_id"
    and rest: "list_all (\<lambda>(n, c). skipped c distribution_id) pre" by simp_all
  from sk show ?case
    unfolding p skipped_def
    by (auto simp: Cons.IH [OF rest] logged_def error_code_of_def)
qed

text \<open>
  C9. For a usable identifier: accounts answering not-found or access-denied are each
  queried and the scan goes on to the accounts after them, whose outcome is the outcome of
  the lookup; an account answering \<^verbatim>\<open>InvalidArgument\<close> ends the lookup with the failure
  result, and no account after it is queried.
\<close>

theorem get_distribution_info_scan:
  assumes "py_strip distribution_id \<noteq> []"
    and "list_all (\<lambda>(n, c). skipped c distribution_id) pre"
  shows "get_distribution_info (pre @ rest) distribution_id =
           (fst (get_distribution_info rest distribution_id),
            map (\<lambda>(n, c). GetDistribution n distribution_id) pre @
              snd (get_distribution_info rest distribution_id))
         \<and> (get_distribution c distribution_id = Raised (ClientError (Some ''InvalidArgument'')) \<longrightarrow>
            get_distribution_info (pre @ (n, c) # rest) distribution_id =
              (None, map (\<lambda>(n, c). GetDistribution n distribution_id) pre @
                       [GetDistribution n distribution_id]))"
proof -
  from assms(1) have ne: "distribution_id \<noteq> []" by (auto simp: py_strip_def)
  show ?thesis
    using assms ne
    by (simp add: get_distribution_info_def scan_accounts_skip error_code_of_def)
qed

theorem get_distribution_info_scan_witness:
  "get_distribution_info
      ([(''a1'', failing_client ''NoSuchDistribution''), (''a2'', failing_client ''AccessDenied'')] @
       [(''a4'', serving_client [] ''v1'')]) ''E1''
     = (Some \<lparr>account = ''a4'', distribution = \<lparr>dist_Id = ''E1'', DistributionConfig = []\<rparr>\<rparr>,
        [GetDistribution ''a1'' ''E1'', GetDistribution ''a2'' ''E1'', GetDistribution ''a4'' ''E1''])
   \<and> get_distribution_info
      ([(''a1'', failing_client ''NoSuchDistribution''), (''a2'', failing_client ''AccessDenied'')] @
       (''a3'', failing_client ''InvalidArgument'') # [(''a4'', serving_client [] ''v1'')]) ''E1''
     = (None,
        [GetDistribution ''a1'' ''E1'', GetDistribution ''a2'' ''E1'', GetDistribution ''a3'' ''E1''])"
proof -
  have s: "py_strip ''E1'' \<noteq> []" by code_simp
  have p: "list_all (\<lambda>(n, c). skipped c ''E1'')
     [(''a1'', failing_client ''NoSuchDistribution''), (''a2'', failing_client ''AccessDenied'')]"
    by (simp add: skipped_def failing_client_def)
  have r: "get_distribution_info [(''a4'', serving_client [] ''v1'')] ''E1'' =
     (Some \<lparr>account = ''a4'', distribution = \<lparr>dist_Id = ''E1'', DistributionConfig = []\<rparr>\<rparr>,
      [GetDistribution ''a4'' ''E1''])"
    using s by (simp add: get_distribution_info_def serving_client_def)
  have i: "get_distribution (failing_client ''InvalidArgument'') ''E1'' =
     Raised (ClientError (Some ''InvalidArgument''))"
    by (simp add: failing_client_def)
  show ?thesis
    using get_distribution_info_scan [OF s p, of "[(''a4'', serving_client [] ''v1'')]"
        "failing_client ''InvalidArgument''" "''a3''"] r i
    by simp
qed

section \<open>Resolution does not depend on what an earlier run left behind\<close>

text \<open>
  C6. Running extraction, region resolution and country resolution again on the same
  metadata, on the object the first run left, gives the same setup values, regions and
  countries and leaves the same found, not-found, location and missing-country lists.
\<close>
theorem resolve_setups_idempotent:
  "resolve_setups (snd (resolve_setups self delivery_details)) delivery_details =
     resolve_setups self delivery_details"
  by (simp add: resolve_setups_def get_regions_for_setups_def get_countries_for_regions_def
      Let_def split: prod.splits)

theorem resolve_setups_idempotent_witness:
  "resolve_setups (snd (resolve_setups (new_manager example_registry) example_metadata))
      example_metadata
   = (([''ts-us-e1-n2''], [(''aws'', []), (''gcp'', [''us-east1''])], [''US'']),
      \<lparr>cluster_regions = example_registry,
       found_setups = Some [''ts-us-e1-n2 (mapped to ts-us-e1-n2-gke)''],
       not_found_setups = Some [],
       found_locations = Some [''us-east1 (SC)''],
       missing_country_clusters = Some []\<rparr>)"
proof -
  have "resolve_setups (new_manager example_registry) example_metadata
     = (([''ts-us-e1-n2''], [(''aws'', []), (''gcp'', [''us-east1''])], [''US'']),
      \<lparr>cluster_regions = example_registry,
       found_setups = Some [''ts-us-e1-n2 (mapped to ts-us-e1-n2-gke)''],
       not_found_setups = Some [],
       found_locations = Some [''us-east1 (SC)''],
       missing_country_clusters = Some []\<rparr>)"
    by code_simp
  then show ?thesis
    using resolve_setups_idempotent [of "new_manager example_registry" example_metadata]
    by simp
qed

section \<open>The update writes back the session-start config\<close>

lemma update_geo_config_frame:
  assumes "update_geo_config rt items config = Inr cfg" and "k \<noteq> ''Restrictions''"
  shows "map_of cfg k = map_of config k"
  using assms
  by (auto simp: update_geo_config_def Let_def update_conv' delete_conv'
      split: if_splits option.splits sum.splits)

lemma remove_geo_field:
  assumes "remove_geo r = Inr r'" and "k \<noteq> ''GeoRestriction''"
  shows "(case r' of JDict d \<Rightarrow> map_of d k | _ \<Rightarrow> None) =
         (case r of JDict d \<Rightarrow> map_of d k | _ \<Rightarrow> None)"
  using assms by (cases r) (auto simp: delete_conv' split: if_splits)

lemma remove_geo_empty:
  assumes "remove_geo r = Inr r'" and "py_not r'" and "k \<noteq> ''GeoRestriction''"
  shows "(case r of JDict d \<Rightarrow> map_of d k | _ \<Rightarrow> None) = None"
proof -
  from assms(2) have "(case r' of JDict d \<Rightarrow> map_of d k | _ \<Rightarrow> None) = None"
    by (cases r') simp_all
  with remove_geo_field [OF assms(1,3)] show ?thesis by simp
qed

lemma set_geo_field:
  assumes "set_geo g r = Inr r'" and "k \<noteq> ''GeoRestriction''"
  shows "(case r' of JDict d \<Rightarrow> map_of d k | _ \<Rightarrow> None) =
         (case r of JDict d \<Rightarrow> map_of d k | _ \<Rightarrow> None)"
  using assms by (cases r) (auto simp: update_conv')

lemma update_geo_config_restrictions_frame:
  assumes u: "update_geo_config rt items config = Inr cfg"
    and k: "k \<noteq> ''GeoRestriction''"
  shows "restriction_field cfg k = restriction_field config k"
proof (cases "rt = ''none''")
  case True
  show ?thesis
  proof (cases "map_of config ''Restrictions''")
    case None
    with True u show ?thesis by (simp add: update_geo_config_def)
  next
    case (Some r)
    with True u obtain x where x: "remove_geo r = Inr x"
      and c: "cfg = (if py_not x then AList.delete ''Restrictions'' config
                     else AList.update ''Restrictions'' x config)"
      by (auto simp: update_geo_config_def split: sum.splits if_splits)
    show ?thesis
    proof (cases "py_not x")
      case True
      with c have "restriction_field cfg k = None"
        by (simp add: restriction_field_def delete_conv')
      moreover from remove_geo_empty [OF x True k] Some
      have "restriction_field config k = None"
        by (simp add: restriction_field_def)
      ultimately show ?thesis by simp
    next
      case False
      with c have "restriction_field cfg k = (case x of JDict d \<Rightarrow> map_of d k | _ \<Rightarrow> None)"
        by (simp add: restriction_field_def update_conv')
      with remove_geo_field [OF x k] Some show ?thesis
        by (simp add: restriction_field_def)
    qed
  qed
next
  case False
  show ?thesis
  proof (cases "map_of config ''Restrictions''")
    case None
    then have nm: "''Restrictions'' \<notin> fst ` set config"
      by (simp add: map_of_eq_None_iff)
    with False u have "cfg = AList.update ''Restrictions''
        (JDict [(''GeoRestriction'', geo_value rt items)]) (AList.update ''Restrictions'' (JDict []) config)"
      by (auto simp: update_geo_config_def Let_def update_conv' split: sum.splits option.splits)
    then have "restriction_field cfg k = None"
      using k by (simp add: restriction_field_def update_conv')
    with None show ?thesis by (simp add: restriction_field_def)
  next
    case (Some r)
    then have mem: "''Restrictions'' \<in> fst ` set config"
      by (metis map_of_eq_None_iff option.distinct(1))
    with False u Some obtain x where x: "set_geo (geo_value rt items) r = Inr x"
      and c: "cfg = AList.update ''Restrictions'' x config"
      by (auto simp: update_geo_config_def Let_def split: sum.splits)
    from c have "restriction_field cfg k = (case x of JDict d \<Rightarrow> map_of d k | _ \<Rightarrow> None)"
      by (simp add: restriction_field_def update_conv')
    with set_geo_field [OF x k] Some show ?thesis
      by (simp add: restriction_field_def)
  qed
qed

lemma apply_changes_update_call:
  assumes "UpdateDistribution a i cfg tag \<in> set (snd (apply_changes_to_cloudfront clients info rt items))"
  shows "\<exists>c resp. map_of clients (account info) = Some c \<and>
           get_distribution c (dist_Id (distribution info)) = Returned resp \<and>
           ETag resp = Some tag \<and>
           a = account info \<and> i = dist_Id (distribution info) \<and>
           update_geo_config rt items (DistributionConfig (distribution info)) = Inr cfg"
  using assms
  by (auto simp: apply_changes_to_cloudfront_def Let_def
      split: option.splits sum.splits api_result.splits)

lemma apply_changes_log:
  assumes "UpdateDistribution a i cfg tag \<in> set (snd (apply_changes_to_cloudfront clients info rt items))"
  shows "snd (apply_changes_to_cloudfront clients info rt items) =
           [GetDistribution a i, UpdateDistribution a i cfg tag]"
  using assms
  by (auto simp: apply_changes_to_cloudfront_def Let_def
      split: option.splits sum.splits api_result.splits)

text \<open>
  C10. Whenever applying edits issues an update call: its concurrency token is the one a
  lookup of the same distribution returned, and that lookup is the call made immediately
  before it; the config it submits is the session-start config after the geo-restriction
  edit, so every top-level field other than \<^verbatim>\<open>Restrictions\<close> and every field of
  \<^verbatim>\<open>Restrictions\<close> other than \<^verbatim>\<open>GeoRestriction\<close> has its session-start value, whatever
  config the remote record holds at that moment.
\<close>

theorem apply_changes_writes_session_config:
  assumes "UpdateDistribution a i cfg tag \<in>
             set (snd (apply_changes_to_cloudfront clients info rt items))"
  shows "(\<exists>c resp. map_of clients (account info) = Some c \<and>
            get_distribution c (dist_Id (distribution info)) = Returned resp \<and>
            ETag resp = Some tag)
       \<and> snd (apply_changes_to_cloudfront clients info rt items) =
            [GetDistribution a i, UpdateDistribution a i cfg tag]
       \<and> update_geo_config rt items (DistributionConfig (distribution info)) = Inr cfg
       \<and> (\<forall>k. k \<noteq> ''Restrictions'' \<longrightarrow>
            map_of cfg k = map_of (DistributionConfig (distribution info)) k)
       \<and> (\<forall>k. k \<noteq> ''GeoRestriction'' \<longrightarrow>
            restriction_field cfg k =
              restriction_field (DistributionConfig (distribution info)) k)"
proof -
  from apply_changes_update_call [OF assms] obtain c resp where
    c: "map_of clients (account info) = Some c"
    and g: "get_distribution c (dist_Id (distribution info)) = Returned resp"
    and e: "ETag resp = Some tag"
    and u: "update_geo_config rt items (DistributionConfig (distribution info)) = Inr cfg"
    by blast
  have 1: "\<exists>c resp. map_of clients (account info) = Some c \<and>
            get_distribution c (dist_Id (distribution info)) = Returned resp \<and>
            ETag resp = Some tag"
    using c g e by blast
  have 4: "\<forall>k. k \<noteq> ''Restrictions'' \<longrightarrow>
            map_of cfg k = map_of (DistributionConfig (distribution info)) k"
    using update_geo_config_frame [OF u] by blast
  have 5: "\<forall>k. k \<noteq> ''GeoRestriction'' \<longrightarrow>
            restriction_field cfg k =
              restriction_field (DistributionConfig (distribution info)) k"
    using update_geo_config_restrictions_frame [OF u] by blast
  from 1 apply_changes_log [OF assms] u 4 5 show ?thesis by blast
qed


theorem apply_changes_writes_session_config_witness:
  "apply_changes_to_cloudfront [(''acct'', serving_client remote_config ''v2'')] session_info
      ''whitelist'' [''GB'', ''US'']
     = (True,
        [GetDistribution ''acct'' ''E1'',
         UpdateDistribution ''acct'' ''E1''
           [(''Comment'', JStr ''at session start''),
            (''Restrictions'', JDict [(''GeoRestriction'', geo_value ''whitelist'' [''GB'', ''US''])])]
           ''v2''])
   \<and> map_of remote_config ''Comment'' = Some (JStr ''changed elsewhere'')
   \<and> map_of [(''Comment'', JStr ''at session start''),
              (''Restrictions'', JDict [(''GeoRestriction'', geo_value ''whitelist'' [''GB'', ''US''])])]
         ''Comment'' = map_of (DistributionConfig (distribution session_info)) ''Comment''"
proof -
  have run: "apply_changes_to_cloudfront [(''acct'', serving_client remote_config ''v2'')] session_info
      ''whitelist'' [''GB'', ''US'']
     = (True,
        [GetDistribution ''acct'' ''E1'',
         UpdateDistribution ''acct'' ''E1''
           [(''Comment'', JStr ''at session start''),
            (''Restrictions'', JDict [(''GeoRestriction'', geo_value ''whitelist'' [''GB'', ''US''])])]
           ''v2''])"
    by (simp add: apply_changes_to_cloudfront_def session_info_def session_config_def
        serving_client_def update_geo_config_def Let_def)
  then have mem: "UpdateDistribution ''acct'' ''E1''
           [(''Comment'', JStr ''at session start''),
            (''Restrictions'', JDict [(''GeoRestriction'', geo_value ''whitelist'' [''GB'', ''US''])])]
           ''v2''
     \<in> set (snd (apply_changes_to_cloudfront [(''acct'', serving_client remote_config ''v2'')]
          session_info ''whitelist'' [''GB'', ''US'']))"
    by simp
  have far: "map_of remote_config ''Comment'' = Some (JStr ''changed elsewhere'')"
    by (simp add: remote_config_def)
  from apply_changes_writes_session_config [OF mem]
  have "\<forall>k. k \<noteq> ''Restrictions'' \<longrightarrow>
      map_of [(''Comment'', JStr ''at session start''),
              (''Restrictions'', JDict [(''GeoRestriction'', geo_value ''whitelist'' [''GB'', ''US''])])] k
      = map_of (DistributionConfig (distribution session_info)) k"
    by blast
  from this [rule_format, of "''Comment''"]
  have kept: "map_of [(''Comment'', JStr ''at session start''),
              (''Restrictions'', JDict [(''GeoRestriction'', geo_value ''whitelist'' [''GB'', ''US''])])]
         ''Comment'' = map_of (DistributionConfig (distribution session_info)) ''Comment''"
    by simp
  from run far kept show ?thesis by blast
qed

section \<open>A cluster entry without a country\<close>

lemma cluster_loop_append:
  "cluster_loop (xs @ ys) r st = cluster_loop ys r (cluster_loop xs r st)"
  by (induction xs r st rule: cluster_loop.induct) simp_all

lemma region_loop_append:
  "region_loop reg ct (rs1 @ rs2) st = region_loop reg ct rs2 (region_loop reg ct rs1 st)"
  by (induction rs1 arbitrary: st) simp_all

lemma cloud_loop_append:
  "cloud_loop reg (xs @ ys) st = cloud_loop reg ys (cloud_loop reg xs st)"
  by (induction reg xs st rule: cloud_loop.induct) simp_all

lemma cluster_loop_missing_mono:
  "set (snd (snd st)) \<subseteq> set (snd (snd (cluster_loop cs r st)))"
  by (induction cs r st rule: cluster_loop.induct) auto

lemma region_loop_missing_mono:
  "set (snd (snd st)) \<subseteq> set (snd (snd (region_loop reg ct rs st)))"
proof (induction rs arbitrary: st)
  case Nil
  then show ?case by simp
next
  case (Cons r rs)
  have "set (snd (snd st)) \<subseteq> set (snd (snd (cluster_loop (clusters_of reg ct) r st)))"
    by (rule cluster_loop_missing_mono)
  also have "\<dots> \<subseteq> set (snd (snd (region_loop reg ct rs (cluster_loop (clusters_of reg ct) r st))))"
    by (rule Cons.IH)
  finally show ?case by simp
qed

lemma cloud_loop_missing_mono:
  "set (snd (snd st)) \<subseteq> set (snd (snd (cloud_loop reg regs st)))"
proof (induction regs arbitrary: st)
  case Nil
  then show ?case by simp
next
  case (Cons p regs)
  obtain ct rl where p: "p = (ct, rl)" by (cases p)
  have "set (snd (snd st)) \<subseteq> set (snd (snd (region_loop reg ct rl st)))"
    by (rule region_loop_missing_mono)
  also have "\<dots> \<subseteq> set (snd (snd (cloud_loop reg regs (region_loop reg ct rl st))))"
    by (rule Cons.IH)
  finally show ?case by (simp add: p)
qed

lemma cluster_loop_reports:
  assumes "region info = Some r" "truthy (location info)" "\<not> truthy (country info)"
  shows "cluster_name @ '' ('' @ the (location info) @ '')''
           \<in> set (snd (snd (cluster_loop (xs @ (cluster_name, info) # ys) r st)))"
proof -
  obtain c l m where s: "cluster_loop xs r st = (c, l, m)" by (cases "cluster_loop xs r st")
  have "cluster_name @ '' ('' @ the (location info) @ '')''
      \<in> set (snd (snd (c, l, m @ [cluster_name @ '' ('' @ the (location info) @ '')''])))"
    by simp
  also have "\<dots> \<subseteq> set (snd (snd (cluster_loop ys r
      (c, l, m @ [cluster_name @ '' ('' @ the (location info) @ '')'']))))"
    by (rule cluster_loop_missing_mono)
  finally show ?thesis
    using assms by (simp add: cluster_loop_append s)
qed

lemma region_loop_reports:
  assumes "r \<in> set rl" "clusters_of reg ct = xs @ (cluster_name, info) # ys"
    "region info = Some r" "truthy (location info)" "\<not> truthy (country info)"
  shows "cluster_name @ '' ('' @ the (location info) @ '')''
           \<in> set (snd (snd (region_loop reg ct rl st)))"
proof -
  from assms(1) obtain rs1 rs2 where rl: "rl = rs1 @ r # rs2" by (meson split_list)
  have "cluster_name @ '' ('' @ the (location info) @ '')''
      \<in> set (snd (snd (cluster_loop (clusters_of reg ct) r (region_loop reg ct rs1 st))))"
    unfolding assms(2) by (rule cluster_loop_reports [OF assms(3-5)])
  also have "\<dots> \<subseteq> set (snd (snd (region_loop reg ct rs2
      (cluster_loop (clusters_of reg ct) r (region_loop reg ct rs1 st)))))"
    by (rule region_loop_missing_mono)
  finally show ?thesis by (simp add: rl region_loop_append)
qed

lemma cloud_loop_reports:
  assumes "(ct, rl) \<in> set regs" "r \<in> set rl"
    "clusters_of reg ct = xs @ (cluster_name, info) # ys"
    "region info = Some r" "truthy (location info)" "\<not> truthy (country info)"
  shows "cluster_name @ '' ('' @ the (location info) @ '')''
           \<in> set (snd (snd (cloud_loop reg regs st)))"
proof -
  from assms(1) obtain ps1 ps2 where regs: "regs = ps1 @ (ct, rl) # ps2" by (meson split_list)
  have "cluster_name @ '' ('' @ the (location info) @ '')''
      \<in> set (snd (snd (region_loop reg ct rl (cloud_loop reg ps1 st))))"
    by (rule region_loop_reports [OF assms(2-6)])
  also have "\<dots> \<subseteq> set (snd (snd (cloud_loop reg ps2
      (region_loop reg ct rl (cloud_loop reg ps1 st)))))"
    by (rule cloud_loop_missing_mono)
  finally show ?thesis by (simp add: regs cloud_loop_append)
qed

lemma cluster_loop_same:
  "same_countries st st' \<Longrightarrow> same_countries (cluster_loop cs r st) (cluster_loop cs r st')"
proof (induction cs arbitrary: st st')
  case Nil
  then show ?case by simp
next
  case (Cons e cs)
  obtain n info where e: "e = (n, info)" by (cases e)
  obtain c l m where st: "st = (c, l, m)" by (cases st)
  obtain c' l' m' where st': "st' = (c', l', m')" by (cases st')
  from Cons.prems have eq: "c = c'" "l = l'" by (simp_all add: same_countries_def st st')
  have IH': "\<And>a b k k'. same_countries (cluster_loop cs r (a, b, k)) (cluster_loop cs r (a, b, k'))"
    by (rule Cons.IH) (simp add: same_countries_def)
  show ?case
    unfolding e st st' eq by (simp add: IH')
qed

lemma cluster_loop_drop_entry:
  assumes "\<not> truthy (country info)" and "same_countries st st'"
  shows "same_countries (cluster_loop (xs @ (cluster_name, info) # ys) r st)
           (cluster_loop (xs @ ys) r st')"
proof -
  obtain c l m where s: "cluster_loop xs r st = (c, l, m)" by (cases "cluster_loop xs r st")
  have 1: "same_countries (cluster_loop xs r st) (cluster_loop xs r st')"
    using assms(2) by (rule cluster_loop_same)
  obtain m2 where step: "cluster_loop ((cluster_name, info) # ys) r (c, l, m) = cluster_loop ys r (c, l, m2)"
    using assms(1) by (cases "region info = Some r"; cases "truthy (location info)") auto
  have "same_countries (c, l, m2) (cluster_loop xs r st')"
    using 1 by (simp add: s same_countries_def)
  then have "same_countries (cluster_loop ys r (c, l, m2)) (cluster_loop ys r (cluster_loop xs r st'))"
    by (rule cluster_loop_same)
  then show ?thesis
    by (simp add: cluster_loop_append s step del: cluster_loop.simps)
qed

lemma region_loop_same:
  assumes "\<And>r st st'. same_countries st st' \<Longrightarrow>
      same_countries (cluster_loop (clusters_of reg ct) r st) (cluster_loop (clusters_of reg' ct) r st')"
    and "same_countries st st'"
  shows "same_countries (region_loop reg ct rs st) (region_loop reg' ct rs st')"
  using assms(2)
proof (induction rs arbitrary: st st')
  case Nil
  then show ?case by simp
next
  case (Cons r rs)
  from assms(1) [OF Cons.prems] show ?case
    by (simp add: Cons.IH)
qed

lemma cloud_loop_same:
  assumes "\<And>ct r st st'. same_countries st st' \<Longrightarrow>
      same_countries (cluster_loop (clusters_of reg ct) r st) (cluster_loop (clusters_of reg' ct) r st')"
    and "same_countries st st'"
  shows "same_countries (cloud_loop reg regs st) (cloud_loop reg' regs st')"
  using assms(2)
proof (induction regs arbitrary: st st')
  case Nil
  then show ?case by simp
next
  case (Cons p regs)
  obtain ct rl where p: "p = (ct, rl)" by (cases p)
  have "same_countries (region_loop reg ct rl st) (region_loop reg' ct rl st')"
    using assms(1) Cons.prems by (rule region_loop_same)
  then show ?case
    by (simp add: p Cons.IH)
qed

lemma cloud_loop_drop_entry:
  assumes "clusters_of reg ct0 = xs @ (cluster_name, info) # ys"
    and "\<not> truthy (country info)"
  shows "same_countries (cloud_loop reg regs st)
           (cloud_loop (with_clusters reg ct0 (xs @ ys)) regs st)"
proof (rule cloud_loop_same)
  show "same_countries st st" by (simp add: same_countries_def)
next
  fix ct r and s s' :: country_state
  assume ss: "same_countries s s'"
  show "same_countries (cluster_loop (clusters_of reg ct) r s)
          (cluster_loop (clusters_of (with_clusters reg ct0 (xs @ ys)) ct) r s')"
  proof (cases "(ct = ''aws'') = (ct0 = ''aws'')")
    case True
    then have a: "clusters_of reg ct = xs @ (cluster_name, info) # ys"
      using assms(1) by (auto simp: clusters_of_def)
    from True have b: "clusters_of (with_clusters reg ct0 (xs @ ys)) ct = xs @ ys"
      by (auto simp: clusters_of_def with_clusters_def)
    show ?thesis unfolding a b using assms(2) ss by (rule cluster_loop_drop_entry)
  next
    case False
    then have b: "clusters_of (with_clusters reg ct0 (xs @ ys)) ct = clusters_of reg ct"
      by (auto simp: clusters_of_def with_clusters_def)
    show ?thesis unfolding b using ss by (rule cluster_loop_same)
  qed
qed

text \<open>
  C5 as stated fails for an entry of the other provider's partition: the regions of a
  provider are looked up in that provider's partition only. Here the region \<^verbatim>\<open>r1\<close> is
  resolved through the GKE cluster; the EKS cluster with the same region, a location and no
  country is never scanned and is not reported.
\<close>

theorem cross_partition_counterexample:
  "fst (get_regions_for_setups (new_manager cross_registry) [''g1''])
     = [(''aws'', []), (''gcp'', [''r1''])]
   \<and> (''a1'', orphan_entry) \<in> set (aws_eks_clusters cross_registry)
   \<and> region orphan_entry = Some ''r1''
   \<and> truthy (location orphan_entry)
   \<and> \<not> truthy (country orphan_entry)
   \<and> get_countries_for_regions (new_manager cross_registry) [(''aws'', []), (''gcp'', [''r1''])]
     = ([''US''],
        (new_manager cross_registry)
          \<lparr>found_locations := Some [''r1 (SC)''], missing_country_clusters := Some []\<rparr>)"
  by (simp add: cross_registry_def orphan_entry_def new_manager_def get_regions_for_setups_def
      not_found_of_def get_countries_for_regions_def clusters_of_def py_replace_def)

text \<open>
  C5, amended. Take a region of some provider's region list and an entry of the partition
  scanned for that provider (the EKS partition for the list keyed \<^verbatim>\<open>aws\<close>, the GKE
  partition for any other key) whose region equals it, with a location and without a
  country (absent or empty). Then the returned country list is the one the registry
  without that entry gives, so the entry contributes no code, and the entry's label is in
  the missing-country list that the call stores.
\<close>

theorem entry_without_country:
  assumes "(cloud_type, region_list) \<in> set regs" and "r \<in> set region_list"
    and "clusters_of (cluster_regions self) cloud_type = xs @ (cluster_name, info) # ys"
    and "region info = Some r" and "truthy (location info)" and "\<not> truthy (country info)"
  shows "fst (get_countries_for_regions
                (self\<lparr>cluster_regions := with_clusters (cluster_regions self) cloud_type (xs @ ys)\<rparr>)
                regs)
           = fst (get_countries_for_regions self regs)
       \<and> (\<exists>missing. missing_country_clusters (snd (get_countries_for_regions self regs)) = Some missing \<and>
            cluster_name @ '' ('' @ the (location info) @ '')'' \<in> set missing)"
proof -
  have "same_countries (cloud_loop (cluster_regions self) regs ([], [], []))
          (cloud_loop (with_clusters (cluster_regions self) cloud_type (xs @ ys)) regs ([], [], []))"
    using assms(3,6) by (rule cloud_loop_drop_entry)
  then have 1: "fst (get_countries_for_regions
                (self\<lparr>cluster_regions := with_clusters (cluster_regions self) cloud_type (xs @ ys)\<rparr>)
                regs)
           = fst (get_countries_for_regions self regs)"
    by (cases "cloud_loop (cluster_regions self) regs ([], [], [])";
        cases "cloud_loop (with_clusters (cluster_regions self) cloud_type (xs @ ys)) regs ([], [], [])")
      (simp add: get_countries_for_regions_def same_countries_def)
  have "cluster_name @ '' ('' @ the (location info) @ '')''
      \<in> set (snd (snd (cloud_loop (cluster_regions self) regs ([], [], []))))"
    using assms by (rule cloud_loop_reports)
  then have 2: "\<exists>missing. missing_country_clusters (snd (get_countries_for_regions self regs)) = Some missing \<and>
            cluster_name @ '' ('' @ the (location info) @ '')'' \<in> set missing"
    by (cases "cloud_loop (cluster_regions self) regs ([], [], [])")
      (simp add: get_countries_for_regions_def)
  from 1 2 show ?thesis by blast
qed


theorem entry_without_country_witness:
  "fst (get_countries_for_regions
          ((new_manager incomplete_registry)
             \<lparr>cluster_regions :=
                with_clusters (cluster_regions (new_manager incomplete_registry)) ''gcp''
                  ([(''c1-gke'', complete_entry)] @ [])\<rparr>)
          [(''aws'', []), (''gcp'', [''us-east1''])])
     = fst (get_countries_for_regions (new_manager incomplete_registry)
              [(''aws'', []), (''gcp'', [''us-east1''])])
   \<and> get_countries_for_regions (new_manager incomplete_registry)
        [(''aws'', []), (''gcp'', [''us-east1''])]
     = ([''US''],
        (new_manager incomplete_registry)
          \<lparr>found_locations := Some [''us-east1 (SC)''],
           missing_country_clusters := Some [''c2-gke (Iowa)'']\<rparr>)"
proof -
  have h1: "(''gcp'', [''us-east1'']) \<in> set [(''aws'', []), (''gcp'', [''us-east1''])]" by simp
  have h2: "''us-east1'' \<in> set [''us-east1'']" by simp
  have h3: "clusters_of (cluster_regions (new_manager incomplete_registry)) ''gcp'' =
      [(''c1-gke'', complete_entry)] @ (''c2-gke'', incomplete_entry) # []"
    by (simp add: clusters_of_def new_manager_def incomplete_registry_def)
  have h4: "region incomplete_entry = Some ''us-east1''" by (simp add: incomplete_entry_def)
  have h5: "truthy (location incomplete_entry)" by (simp add: incomplete_entry_def)
  have h6: "\<not> truthy (country incomplete_entry)" by (simp add: incomplete_entry_def)
  have run: "get_countries_for_regions (new_manager incomplete_registry)
        [(''aws'', []), (''gcp'', [''us-east1''])]
     = ([''US''],
        (new_manager incomplete_registry)
          \<lparr>found_locations := Some [''us-east1 (SC)''],
           missing_country_clusters := Some [''c2-gke (Iowa)'']\<rparr>)"
    by (simp add: get_countries_for_regions_def new_manager_def incomplete_registry_def
        clusters_of_def complete_entry_def incomplete_entry_def)
  from entry_without_country [OF h1 h2 h3 h4 h5 h6] run
  show ?thesis by blast
qed

section \<open>Setups that match no cluster\<close>

text \<open>
  C2, evaluated at an input where it fails. The identifier \<^verbatim>\<open>ts-us-e1\<close> is no key of
  either partition and no GKE key gives it when \<^verbatim>\<open>-gke\<close> is removed, yet it is absent from
  the not-found list: it occurs inside the found cluster name \<^verbatim>\<open>ts-us-e1-n2\<close>, and the
  not-found filter drops every identifier that is a substring of a found label.
\<close>

theorem unmatched_setup_not_reported:
  "''ts-us-e1'' \<in> set [''ts-us-e1'', ''ts-us-e1-n2'']
   \<and> ''ts-us-e1'' \<notin> fst ` set (aws_eks_clusters single_registry)
   \<and> ''ts-us-e1'' \<notin> fst ` set (gcp_gke_clusters single_registry)
   \<and> ''ts-us-e1'' \<notin> (\<lambda>k. py_replace k ''-gke'' []) ` fst ` set (gcp_gke_clusters single_registry)
   \<and> get_regions_for_setups (new_manager single_registry) [''ts-us-e1'', ''ts-us-e1-n2'']
       = ([(''aws'', [''us-east-1'']), (''gcp'', [])],
          (new_manager single_registry)
            \<lparr>found_setups := Some [''ts-us-e1-n2''], not_found_setups := Some []\<rparr>)"
  by (simp add: single_registry_def new_manager_def get_regions_for_setups_def not_found_of_def)

section \<open>The suffix fallback of the GKE partition\<close>

text \<open>
  C4 as stated fails when the suffixed registry key is itself among the setup values: the
  key then takes the exact-match branch, and nothing records the unsuffixed identifier as
  mapped.
\<close>

theorem suffix_fallback_counterexample:
  "''ts-us-e1-n2'' \<in> set [''ts-us-e1-n2'', ''ts-us-e1-n2-gke'']
   \<and> ''ts-us-e1-n2'' \<notin> fst ` set (aws_eks_clusters example_registry)
   \<and> ''ts-us-e1-n2'' \<notin> fst ` set (gcp_gke_clusters example_registry)
   \<and> ''ts-us-e1-n2-gke'' \<in> fst ` set (gcp_gke_clusters example_registry)
   \<and> py_replace ''ts-us-e1-n2-gke'' ''-gke'' [] = ''ts-us-e1-n2''
   \<and> found_setups (snd (get_regions_for_setups (new_manager example_registry)
         [''ts-us-e1-n2'', ''ts-us-e1-n2-gke''])) = Some [''ts-us-e1-n2-gke'']"
  by (simp add: example_registry_def new_manager_def get_regions_for_setups_def not_found_of_def
      py_replace_def mapped_label_def)

lemma prefix_gke_append:
  assumes "prefix ''-gke'' (s @ ''-gke'')" and "s \<noteq> []"
  shows "prefix ''-gke'' s"
proof -
  from assms(2) obtain a s1 where s: "s = a # s1" by (cases s) auto
  show ?thesis
  proof (cases s1)
    case Nil
    with assms(1) s show ?thesis by simp
  next
    case (Cons b s2)
    note s1 = this
    show ?thesis
    proof (cases s2)
      case Nil
      with assms(1) s s1 show ?thesis by simp
    next
      case (Cons c s3)
      note s2 = this
      show ?thesis
      proof (cases s3)
        case Nil
        with assms(1) s s1 s2 show ?thesis by simp
      next
        case (Cons d s4)
        with assms(1) s s1 s2 show ?thesis by simp
      qed
    qed
  qed
qed

lemma py_in_str_prefix: "prefix a b \<Longrightarrow> py_in_str a b"
  by (cases b) simp_all

lemma py_in_str_tail: "py_in_str a cs \<Longrightarrow> py_in_str a (c # cs)"
  by simp

lemma replace_scan_skip:
  "\<not> prefix old (c # cs) \<Longrightarrow> replace_scan old new (c # cs) = c # replace_scan old new cs"
  by simp

lemma replace_scan_gke_suffix:
  "\<not> py_in_str ''-gke'' s \<Longrightarrow> replace_scan ''-gke'' [] (s @ ''-gke'') = s"
proof (induction s)
  case Nil
  then show ?case by simp
next
  case (Cons c cs)
  from Cons.prems have np: "\<not> prefix ''-gke'' (c # cs)" and nt: "\<not> py_in_str ''-gke'' cs"
    by simp_all
  from np prefix_gke_append [of "c # cs"] have "\<not> prefix ''-gke'' ((c # cs) @ ''-gke'')"
    by blast
  then have "\<not> prefix ''-gke'' (c # (cs @ ''-gke''))"
    unfolding append_Cons .
  then have step: "replace_scan ''-gke'' [] (c # (cs @ ''-gke'')) =
      c # replace_scan ''-gke'' [] (cs @ ''-gke'')"
    by (rule replace_scan_skip)
  have ih: "replace_scan ''-gke'' [] (cs @ ''-gke'') = cs"
    using nt by (rule Cons.IH)
  show ?case
    by (simp only: append_Cons step ih)
qed

lemma py_in_str_append: "py_in_str a (a @ t)"
  by (rule py_in_str_prefix) simp

lemma gcp_loop_append:
  "gcp_loop (xs @ ys) sv st = gcp_loop ys sv (gcp_loop xs sv st)"
  by (induction xs sv st rule: gcp_loop.induct) (simp_all add: Let_def)

lemma gcp_loop_mono:
  "set (fst st) \<subseteq> set (fst (gcp_loop cs sv st)) \<and> set (snd st) \<subseteq> set (snd (gcp_loop cs sv st))"
  by (induction cs sv st rule: gcp_loop.induct) (auto simp: Let_def)


lemma gcp_loop_fallback:
  assumes "s \<in> set sv" and "\<not> py_in_str ''-gke'' s" and "s @ ''-gke'' \<notin> set sv"
    and "region info = Some r" and "r \<noteq> []"
  shows "r \<in> set (fst (gcp_loop (xs @ (s @ ''-gke'', info) # ys) sv st))
       \<and> s @ '' (mapped to '' @ s @ ''-gke'' @ '')''
           \<in> set (snd (gcp_loop (xs @ (s @ ''-gke'', info) # ys) sv st))"
proof -
  obtain regs found where pre: "gcp_loop xs sv st = (regs, found)"
    by (cases "gcp_loop xs sv st")
  have strip: "py_replace (s @ ''-gke'') ''-gke'' [] = s"
  proof -
    have "py_replace (s @ ''-gke'') ''-gke'' [] = replace_scan ''-gke'' [] (s @ ''-gke'')"
      by (simp add: py_replace_def del: replace_scan.simps)
    from this replace_scan_gke_suffix [OF assms(2)] show ?thesis by (rule trans)
  qed
  have step: "gcp_loop ((s @ ''-gke'', info) # ys) sv (regs, found) =
      gcp_loop ys sv (regs @ [r], found @ [s @ '' (mapped to '' @ s @ ''-gke'' @ '')''])"
    using assms(1,3,4,5) by (simp add: strip mapped_label_def del: replace_scan.simps)
  have "r \<in> set (fst (regs @ [r], found @ [s @ '' (mapped to '' @ s @ ''-gke'' @ '')'']))"
    and "s @ '' (mapped to '' @ s @ ''-gke'' @ '')''
       \<in> set (snd (regs @ [r], found @ [s @ '' (mapped to '' @ s @ ''-gke'' @ '')'']))"
    by simp_all
  with gcp_loop_mono [of "(regs @ [r], found @ [s @ '' (mapped to '' @ s @ ''-gke'' @ '')''])" ys sv]
  have "r \<in> set (fst (gcp_loop ys sv (regs @ [r], found @ [s @ '' (mapped to '' @ s @ ''-gke'' @ '')''])))
      \<and> s @ '' (mapped to '' @ s @ ''-gke'' @ '')''
        \<in> set (snd (gcp_loop ys sv (regs @ [r], found @ [s @ '' (mapped to '' @ s @ ''-gke'' @ '')''])))"
    by blast
  then show ?thesis
    by (simp only: gcp_loop_append pre step)
qed

text \<open>
  C4, amended. Let \<open>s\<close> be a setup value containing no \<^verbatim>\<open>-gke\<close>, let the GKE partition
  have the key \<open>s\<close> followed by \<^verbatim>\<open>-gke\<close>, not itself among the setup values, with a
  non-empty region. Then that region is in the GCP region list, the found list holds the
  label recording \<open>s\<close> as mapped to the key, and \<open>s\<close> is not reported as not found.
\<close>

theorem suffix_fallback_mapped:
  assumes "s \<in> set setup_values" and "\<not> py_in_str ''-gke'' s"
    and "(s @ ''-gke'', info) \<in> set (gcp_gke_clusters (cluster_regions self))"
    and "s @ ''-gke'' \<notin> set setup_values"
    and "region info = Some r" and "r \<noteq> []"
  shows "(\<exists>gcp. map_of (fst (get_regions_for_setups self setup_values)) ''gcp'' = Some gcp \<and>
            r \<in> set gcp)
       \<and> (\<exists>found. found_setups (snd (get_regions_for_setups self setup_values)) = Some found \<and>
            s @ '' (mapped to '' @ s @ ''-gke'' @ '')'' \<in> set found)
       \<and> (\<exists>not_found.
            not_found_setups (snd (get_regions_for_setups self setup_values)) = Some not_found \<and>
            s \<notin> set not_found)"
proof -
  from assms(3) obtain xs ys where
    sp: "gcp_gke_clusters (cluster_regions self) = xs @ (s @ ''-gke'', info) # ys"
    by (meson split_list)
  obtain aws found1 where a: "aws_loop (aws_eks_clusters (cluster_regions self)) setup_values ([], [])
      = (aws, found1)"
    by (cases "aws_loop (aws_eks_clusters (cluster_regions self)) setup_values ([], [])")
  obtain gcp found2 where g: "gcp_loop (gcp_gke_clusters (cluster_regions self)) setup_values
      ([], found1) = (gcp, found2)"
    by (cases "gcp_loop (gcp_gke_clusters (cluster_regions self)) setup_values ([], found1)")
  from gcp_loop_fallback [OF assms(1,2,4,5,6), of xs ys "([], found1)"] g
  have r: "r \<in> set gcp" and l: "s @ '' (mapped to '' @ s @ ''-gke'' @ '')'' \<in> set found2"
    by (simp_all add: sp)
  have "py_in_str s (s @ '' (mapped to '' @ s @ ''-gke'' @ '')'')"
    by (rule py_in_str_append)
  with l have "list_ex (\<lambda>f. py_in_str s f) found2"
    unfolding list_ex_iff by blast
  then have n: "s \<notin> set (not_found_of setup_values found2)"
    by (simp add: not_found_of_def)
  from r l n show ?thesis
    by (simp add: get_regions_for_setups_def a g)
qed

theorem suffix_fallback_mapped_witness:
  "get_regions_for_setups (new_manager example_registry) [''ts-us-e1-n2'']
     = ([(''aws'', []), (''gcp'', [''us-east1''])],
        (new_manager example_registry)
          \<lparr>found_setups := Some [''ts-us-e1-n2 (mapped to ts-us-e1-n2-gke)''],
           not_found_setups := Some []\<rparr>)
   \<and> (\<exists>found. found_setups (snd (get_regions_for_setups (new_manager example_registry)
          [''ts-us-e1-n2''])) = Some found \<and>
        ''ts-us-e1-n2'' @ '' (mapped to '' @ ''ts-us-e1-n2'' @ ''-gke'' @ '')'' \<in> set found)"
proof -
  have h1: "''ts-us-e1-n2'' \<in> set [''ts-us-e1-n2'']" by simp
  have h2: "\<not> py_in_str ''-gke'' ''ts-us-e1-n2''" by simp
  have h3: "(''ts-us-e1-n2'' @ ''-gke'',
       \<lparr>region = Some ''us-east1'', location = Some ''SC'', country = Some ''US''\<rparr>)
     \<in> set (gcp_gke_clusters (cluster_regions (new_manager example_registry)))"
    by (simp add: new_manager_def example_registry_def)
  have h4: "''ts-us-e1-n2'' @ ''-gke'' \<notin> set [''ts-us-e1-n2'']" by simp
  have h5: "region \<lparr>region = Some ''us-east1'', location = Some ''SC'', country = Some ''US''\<rparr>
     = Some ''us-east1''" by simp
  have h6: "''us-east1'' \<noteq> []" by simp
  have run: "get_regions_for_setups (new_manager example_registry) [''ts-us-e1-n2'']
     = ([(''aws'', []), (''gcp'', [''us-east1''])],
        (new_manager example_registry)
          \<lparr>found_setups := Some [''ts-us-e1-n2 (mapped to ts-us-e1-n2-gke)''],
           not_found_setups := Some []\<rparr>)"
    by (simp add: example_registry_def new_manager_def get_regions_for_setups_def
        not_found_of_def py_replace_def mapped_label_def)
  from suffix_fallback_mapped [OF h1 h2 h3 h4 h5 h6] run show ?thesis by blast
qed

section \<open>Adding a country\<close>

lemma dom_fold_reverse:
  "dom (fold (\<lambda>(k, v) m. m(str_lower ops v \<mapsto> k)) cc m0) =
     dom m0 \<union> (\<lambda>(k, v). str_lower ops v) ` set cc"
  by (induction cc arbitrary: m0) auto

lemma dom_load_country_codes_reverse:
  "dom (load_country_codes_reverse ops cc) = (\<lambda>(k, v). str_lower ops v) ` set cc"
  by (simp add: load_country_codes_reverse_def dom_fold_reverse)

lemma find_country_code_Some_iff:
  "(find_country_code ops cc (load_country_codes_reverse ops cc) x \<noteq> None) =
     (x \<in> fst ` set cc \<or> str_lower ops x \<in> (\<lambda>(k, v). str_lower ops v) ` set cc)"
  unfolding find_country_code_def dom_load_country_codes_reverse [symmetric]
  by (auto simp: domIff)

lemma py_in_str_refl: "py_in_str a a"
  by (cases a) simp_all

text \<open>
  C7 as stated fails: an input that is a proper part of a display name, in any case, is
  rejected. The name lookup is a dict lookup of the whole lower-cased name. (The input is
  ASCII, so the ASCII functions are Python's.)
\<close>

theorem add_country_counterexample:
  "py_in_str (ascii_lower ''united'') (ascii_lower ''United States'')
   \<and> add_country_to_list ascii_ops [] [(''US'', ''United States'')]
        (load_country_codes_reverse ascii_ops [(''US'', ''United States'')]) ''united'' ''yes''
       = (AddNotFound, [])"
proof -
  have a: "ascii_lower ''united'' = ''united''" by code_simp
  have b: "ascii_lower ''United States'' = ''united states''" by code_simp
  have c: "ascii_upper (py_strip ''united'') = ''UNITED''" by code_simp
  have d: "ascii_lower ''UNITED'' = ''united''" by code_simp
  have e: "py_in_str ''united'' ''united states''" by code_simp
  have f: "find_country_code ascii_ops [(''US'', ''United States'')]
     (load_country_codes_reverse ascii_ops [(''US'', ''United States'')]) ''UNITED'' = None"
    by (simp add: find_country_code_def load_country_codes_reverse_def ascii_ops_def b d domIff)
  have g: "str_upper ascii_ops (str_strip ascii_ops ''united'') = ''UNITED''"
    by (simp add: ascii_ops_def c)
  show ?thesis
    by (simp add: a b e add_country_to_list_def g f del: py_in_str.simps)
qed

text \<open>
  C7, amended. Whatever the three string functions are: an input passes the lookup exactly
  when, stripped and upper-cased, it is not empty and either is a code of the table or,
  lower-cased again, equals the whole lower-cased display name of some country. An input
  that does not pass leaves the list unchanged; in particular so does every input that in
  this form is neither a code nor contained in any lower-cased display name.
\<close>

theorem add_country_accepts:
  "(fst (add_country_to_list ops current_items cc (load_country_codes_reverse ops cc) line confirm_line)
      \<notin> {AddNoCountryEntered, AddNotFound})
     = (str_upper ops (str_strip ops line) \<noteq> [] \<and>
        (str_upper ops (str_strip ops line) \<in> fst ` set cc \<or>
         str_lower ops (str_upper ops (str_strip ops line))
           \<in> (\<lambda>(code, name). str_lower ops name) ` set cc))
   \<and> (fst (add_country_to_list ops current_items cc (load_country_codes_reverse ops cc) line confirm_line)
        \<in> {AddNoCountryEntered, AddNotFound} \<longrightarrow>
      snd (add_country_to_list ops current_items cc (load_country_codes_reverse ops cc) line confirm_line)
        = current_items)
   \<and> (str_upper ops (str_strip ops line) \<notin> fst ` set cc \<and>
      list_all (\<lambda>(code, name).
          \<not> py_in_str (str_lower ops (str_upper ops (str_strip ops line))) (str_lower ops name)) cc \<longrightarrow>
      add_country_to_list ops current_items cc (load_country_codes_reverse ops cc) line confirm_line
        \<in> {(AddNoCountryEntered, current_items), (AddNotFound, current_items)})"
proof -
  let ?x = "str_upper ops (str_strip ops line)"
  note f = find_country_code_Some_iff [of ops cc ?x]
  have 1: "(fst (add_country_to_list ops current_items cc (load_country_codes_reverse ops cc) line confirm_line)
      \<notin> {AddNoCountryEntered, AddNotFound})
     = (?x \<noteq> [] \<and>
        (?x \<in> fst ` set cc \<or>
         str_lower ops ?x \<in> (\<lambda>(code, name). str_lower ops name) ` set cc))"
    using f by (auto simp: add_country_to_list_def Let_def split: option.splits)
  have 2: "fst (add_country_to_list ops current_items cc (load_country_codes_reverse ops cc) line confirm_line)
        \<in> {AddNoCountryEntered, AddNotFound} \<longrightarrow>
      snd (add_country_to_list ops current_items cc (load_country_codes_reverse ops cc) line confirm_line)
        = current_items"
    by (auto simp: add_country_to_list_def Let_def split: option.splits if_splits)
  have 3: "?x \<notin> fst ` set cc \<and>
      list_all (\<lambda>(code, name). \<not> py_in_str (str_lower ops ?x) (str_lower ops name)) cc \<longrightarrow>
      add_country_to_list ops current_items cc (load_country_codes_reverse ops cc) line confirm_line
        \<in> {(AddNoCountryEntered, current_items), (AddNotFound, current_items)}"
  proof (intro impI, elim conjE)
    assume nc: "?x \<notin> fst ` set cc"
      and ns: "list_all (\<lambda>(code, name). \<not> py_in_str (str_lower ops ?x) (str_lower ops name)) cc"
    have "str_lower ops ?x \<notin> (\<lambda>(code, name). str_lower ops name) ` set cc"
    proof
      assume "str_lower ops ?x \<in> (\<lambda>(code, name). str_lower ops name) ` set cc"
      then obtain code name where m: "(code, name) \<in> set cc"
        and q: "str_lower ops ?x = str_lower ops name" by auto
      from ns m have "\<not> py_in_str (str_lower ops ?x) (str_lower ops name)"
        by (auto simp: list_all_iff)
      with q py_in_str_refl show False by simp
    qed
    with nc f have "find_country_code ops cc (load_country_codes_reverse ops cc) ?x = None" by simp
    then show "add_country_to_list ops current_items cc (load_country_codes_reverse ops cc) line confirm_line
        \<in> {(AddNoCountryEntered, current_items), (AddNotFound, current_items)}"
      by (simp add: add_country_to_list_def Let_def)
  qed
  from 1 2 3 show ?thesis by blast
qed

theorem add_country_accepts_witness:
  "fst (add_country_to_list ascii_ops [''GB''] example_countries
          (load_country_codes_reverse ascii_ops example_countries) '' United States '' ''y'')
     \<notin> {AddNoCountryEntered, AddNotFound}
   \<and> add_country_to_list ascii_ops [''GB''] example_countries
        (load_country_codes_reverse ascii_ops example_countries) ''zz'' ''y''
     \<in> {(AddNoCountryEntered, [''GB'']), (AddNotFound, [''GB''])}"
proof -
  have a: "str_upper ascii_ops (str_strip ascii_ops '' United States '') \<noteq> []" by code_simp
  have b: "str_lower ascii_ops (str_upper ascii_ops (str_strip ascii_ops '' United States ''))
      = ''united states''" by code_simp
  have c: "str_lower ascii_ops ''United States'' = ''united states''" by code_simp
  have d: "str_lower ascii_ops (str_upper ascii_ops (str_strip ascii_ops '' United States ''))
      \<in> (\<lambda>(code, name). str_lower ascii_ops name) ` set example_countries"
    unfolding b by (simp add: example_countries_def c image_iff)
  have e: "str_upper ascii_ops (str_strip ascii_ops ''zz'') \<notin> fst ` set example_countries"
    by code_simp
  have f: "list_all (\<lambda>(code, name).
      \<not> py_in_str (str_lower ascii_ops (str_upper ascii_ops (str_strip ascii_ops ''zz'')))
          (str_lower ascii_ops name)) example_countries" by code_simp
  from add_country_accepts [of ascii_ops "[''GB'']" example_countries "'' United States ''" "''y''"] a d
  have 1: "fst (add_country_to_list ascii_ops [''GB''] example_countries
          (load_country_codes_reverse ascii_ops example_countries) '' United States '' ''y'')
     \<notin> {AddNoCountryEntered, AddNotFound}"
    by blast
  from add_country_accepts [of ascii_ops "[''GB'']" example_countries "''zz''" "''y''"] e f
  have 2: "add_country_to_list ascii_ops [''GB''] example_countries
        (load_country_codes_reverse ascii_ops example_countries) ''zz'' ''y''
     \<in> {(AddNoCountryEntered, [''GB'']), (AddNotFound, [''GB''])}"
    by blast
  from 1 2 show ?thesis by blast
qed

section \<open>Removing a country\<close>

lemma find_by_name_none:
  "list_all (\<lambda>code. \<not> name_matches ops cc choice code) items \<Longrightarrow>
   find_by_name ops cc choice items = None"
  by (induction items) (simp_all add: name_matches_def)

lemma find_by_name_first:
  "list_all (\<lambda>code. \<not> name_matches ops cc choice code) pre \<Longrightarrow> name_matches ops cc choice code \<Longrightarrow>
   find_by_name ops cc choice (pre @ code # post) = Some code"
  by (induction pre) (simp_all add: name_matches_def)

lemma remove1_first:
  "code \<notin> set pre \<Longrightarrow> remove1 code (pre @ code # post) = pre @ post"
  by (induction pre) auto

text \<open>
  C8 as stated fails: an input contained in the display names of two listed countries
  selects the first of them, which is removed once the removal is confirmed. (The input is
  ASCII, so the ASCII functions are Python's.)
\<close>

theorem remove_country_counterexample:
  "name_matches ascii_ops example_countries (str_strip ascii_ops ''united'') ''US''
   \<and> name_matches ascii_ops example_countries (str_strip ascii_ops ''united'') ''GB''
   \<and> remove_country_from_list ascii_ops [''US'', ''GB''] example_countries ''united'' ''yes''
       = (Removed, [''GB''])"
  by code_simp

text \<open>
  C8, amended. Whatever the three string functions are: an input whose upper-cased form
  is no listed code and which is contained in no listed display name leaves the list
  unchanged, and so does any input without an affirmative confirmation. Otherwise the
  input selects a country, also when several display names contain it: if its upper-cased
  form is a listed code, that code; if not, the first listed country whose display name
  contains it. The selected country is removed when the confirmation is affirmative.
\<close>

theorem remove_country_cases:
  "(str_upper ops (str_strip ops line) \<notin> set current_items \<and>
    list_all (\<lambda>code. \<not> name_matches ops cc (str_strip ops line) code) current_items \<longrightarrow>
      snd (remove_country_from_list ops current_items cc line confirm_line) = current_items)
   \<and> (\<not> confirmed ops confirm_line \<longrightarrow>
      snd (remove_country_from_list ops current_items cc line confirm_line) = current_items)
   \<and> (str_strip ops line \<noteq> [] \<and> str_upper ops (str_strip ops line) \<in> set current_items \<and>
      str_upper ops (str_strip ops line) \<noteq> [] \<and> confirmed ops confirm_line \<longrightarrow>
      remove_country_from_list ops current_items cc line confirm_line =
        (Removed, remove1 (str_upper ops (str_strip ops line)) current_items))
   \<and> (str_strip ops line \<noteq> [] \<and> str_upper ops (str_strip ops line) \<notin> set current_items \<and>
      current_items = pre @ code # post \<and>
      list_all (\<lambda>code. \<not> name_matches ops cc (str_strip ops line) code) pre \<and>
      name_matches ops cc (str_strip ops line) code \<and> code \<noteq> [] \<and>
      confirmed ops confirm_line \<longrightarrow>
      remove_country_from_list ops current_items cc line confirm_line = (Removed, pre @ post))"
proof -
  have 1: "str_upper ops (str_strip ops line) \<notin> set current_items \<and>
    list_all (\<lambda>code. \<not> name_matches ops cc (str_strip ops line) code) current_items \<longrightarrow>
      snd (remove_country_from_list ops current_items cc line confirm_line) = current_items"
    by (auto simp: remove_country_from_list_def Let_def find_by_name_none)
  have 2: "\<not> confirmed ops confirm_line \<longrightarrow>
      snd (remove_country_from_list ops current_items cc line confirm_line) = current_items"
    by (auto simp: remove_country_from_list_def Let_def)
  have 3: "str_strip ops line \<noteq> [] \<and> str_upper ops (str_strip ops line) \<in> set current_items \<and>
      str_upper ops (str_strip ops line) \<noteq> [] \<and> confirmed ops confirm_line \<longrightarrow>
      remove_country_from_list ops current_items cc line confirm_line =
        (Removed, remove1 (str_upper ops (str_strip ops line)) current_items)"
    by (auto simp: remove_country_from_list_def Let_def)
  have 4: "str_strip ops line \<noteq> [] \<and> str_upper ops (str_strip ops line) \<notin> set current_items \<and>
      current_items = pre @ code # post \<and>
      list_all (\<lambda>code. \<not> name_matches ops cc (str_strip ops line) code) pre \<and>
      name_matches ops cc (str_strip ops line) code \<and> code \<noteq> [] \<and>
      confirmed ops confirm_line \<longrightarrow>
      remove_country_from_list ops current_items cc line confirm_line = (Removed, pre @ post)"
  proof (intro impI, elim conjE)
    assume ne: "str_strip ops line \<noteq> []"
      and nc: "str_upper ops (str_strip ops line) \<notin> set current_items"
      and ci: "current_items = pre @ code # post"
      and np: "list_all (\<lambda>code. \<not> name_matches ops cc (str_strip ops line) code) pre"
      and m: "name_matches ops cc (str_strip ops line) code" and cn: "code \<noteq> []"
      and cf: "confirmed ops confirm_line"
    from np m have "code \<notin> set pre" by (auto simp: list_all_iff)
    then have r: "remove1 code (pre @ code # post) = pre @ post" by (rule remove1_first)
    from np m have f: "find_by_name ops cc (str_strip ops line) (pre @ code # post) = Some code"
      by (rule find_by_name_first)
    from nc ci have nc': "str_upper ops (str_strip ops line) \<notin> set (pre @ code # post)" by simp
    show "remove_country_from_list ops current_items cc line confirm_line = (Removed, pre @ post)"
      unfolding ci remove_country_from_list_def Let_def
      using ne nc' cn cf r by (simp add: f)
  qed
  from 1 2 3 4 show ?thesis by blast
qed

theorem remove_country_cases_witness:
  "snd (remove_country_from_list ascii_ops [''US'', ''GB''] example_countries ''france'' ''yes'')
     = [''US'', ''GB'']
   \<and> snd (remove_country_from_list ascii_ops [''US'', ''GB''] example_countries ''united'' ''no'')
     = [''US'', ''GB'']
   \<and> remove_country_from_list ascii_ops [''CN'', ''IN''] china_india ''in'' ''yes''
     = (Removed, [''CN''])
   \<and> remove_country_from_list ascii_ops [''US'', ''GB''] example_countries ''united'' ''yes''
     = (Removed, [''GB''])"
proof -
  have a1: "str_upper ascii_ops (str_strip ascii_ops ''france'') \<notin> set [''US'', ''GB'']"
    by code_simp
  have a2: "list_all (\<lambda>code. \<not> name_matches ascii_ops example_countries
      (str_strip ascii_ops ''france'') code) [''US'', ''GB'']" by code_simp
  have b1: "\<not> confirmed ascii_ops ''no''" by code_simp
  have c1: "str_strip ascii_ops ''united'' \<noteq> []" by code_simp
  have c2: "str_upper ascii_ops (str_strip ascii_ops ''united'') \<notin> set [''US'', ''GB'']"
    by code_simp
  have c3: "[''US'', ''GB''] = [] @ ''US'' # [''GB'']" by simp
  have c4: "list_all (\<lambda>code. \<not> name_matches ascii_ops example_countries
      (str_strip ascii_ops ''united'') code) []"
    by simp
  have c5: "name_matches ascii_ops example_countries (str_strip ascii_ops ''united'') ''US''"
    by code_simp
  have c6: "''US'' \<noteq> []" by simp
  have c7: "confirmed ascii_ops ''yes''" by code_simp
  have d1: "str_strip ascii_ops ''in'' \<noteq> []" by code_simp
  have d2: "str_upper ascii_ops (str_strip ascii_ops ''in'') = ''IN''" by code_simp
  have d3: "''IN'' \<in> set [''CN'', ''IN'']" by simp
  have d4: "remove1 ''IN'' [''CN'', ''IN''] = [''CN'']" by simp
  from remove_country_cases [where ops = ascii_ops and line = "''france''"
      and current_items = "[''US'', ''GB'']" and cc = example_countries
      and confirm_line = "''yes''"] a1 a2
  have 1: "snd (remove_country_from_list ascii_ops [''US'', ''GB''] example_countries ''france'' ''yes'')
     = [''US'', ''GB'']" by blast
  from remove_country_cases [where ops = ascii_ops and line = "''united''"
      and current_items = "[''US'', ''GB'']" and cc = example_countries
      and confirm_line = "''no''"] b1
  have 2: "snd (remove_country_from_list ascii_ops [''US'', ''GB''] example_countries ''united'' ''no'')
     = [''US'', ''GB'']" by blast
  from remove_country_cases [where ops = ascii_ops and line = "''in''"
      and current_items = "[''CN'', ''IN'']" and cc = china_india
      and confirm_line = "''yes''"] d1 d2 d3 c7
  have "remove_country_from_list ascii_ops [''CN'', ''IN''] china_india ''in'' ''yes''
     = (Removed, remove1 ''IN'' [''CN'', ''IN''])" by simp
  with d4 have 3: "remove_country_from_list ascii_ops [''CN'', ''IN''] china_india ''in'' ''yes''
     = (Removed, [''CN''])" by simp
  from remove_country_cases [where ops = ascii_ops and line = "''united''"
      and current_items = "[''US'', ''GB'']" and cc = example_countries
      and confirm_line = "''yes''" and pre = "[]" and code = "''US''" and post = "[''GB'']"]
    c1 c2 c3 c4 c5 c6 c7
  have 4: "remove_country_from_list ascii_ops [''US'', ''GB''] example_countries ''united'' ''yes''
     = (Removed, [] @ [''GB''])" by blast
  from 1 2 3 4 show ?thesis by simp
qed

end
